theory Spec2Isabelle
  imports Complex_Main "HOL-Library.Word"
begin

section \<open>Data model\<close>

text \<open>
  The program is \<^verbatim>\<open>src/app.py\<close>: a Streamlit script that loads an image from an upload
  or a URL, keeps its encoded bytes in the session state and prepares it for MobileNetV2.
  Bytes and colour channels are 8-bit words; an exception is a value of \<open>error\<close>, and a
  call that may raise returns \<open>error + 'a\<close> with \<open>Inl\<close> for the exception.
\<close>

type_synonym byte = "8 word"
type_synonym bytes = "byte list"
type_synonym pixel = "byte \<times> byte \<times> byte"

datatype error =
    ConnectionError
  | Timeout
  | HTTPError int
  | UnidentifiedImageError
  | OSError
  | ValueError

text \<open>
  A \<^verbatim>\<open>PIL.Image.Image\<close> in mode RGB: \<^verbatim>\<open>img.size\<close> is \<open>(width, height)\<close>, the pixel data
  are the rows from top to bottom, and \<open>orientation\<close> is the EXIF orientation tag the
  image carries in its metadata, if any.
\<close>

record image =
  width :: nat
  height :: nat
  pixels :: "pixel list list"
  orientation :: "nat option"

definition wf_image :: "image \<Rightarrow> bool" where
  "wf_image img \<longleftrightarrow>
     length (pixels img) = height img \<and> list_all (\<lambda>r. length r = width img) (pixels img)"

text \<open>Reading a pixel; outside the image Pillow's \<^verbatim>\<open>crop\<close> fills with zero.\<close>

definition getpixel :: "image \<Rightarrow> int \<Rightarrow> int \<Rightarrow> pixel" where
  "getpixel img x y =
     (if 0 \<le> x \<and> x < int (width img) \<and> 0 \<le> y \<and> y < int (height img)
      then pixels img ! nat y ! nat x else (0, 0, 0))"

section \<open>Pillow operations used by the program\<close>

text \<open>
  \<^verbatim>\<open>Image.crop(box)\<close> with \<open>box = (left, upper, right, lower)\<close>: raises \<^verbatim>\<open>ValueError\<close>
  when \<open>right < left\<close> or \<open>lower < upper\<close>; otherwise the result has size
  \<open>(right - left, lower - upper)\<close>, its pixel \<open>(x, y)\<close> is the pixel
  \<open>(left + x, upper + y)\<close> of the original, and the metadata are kept.
\<close>

definition crop :: "image \<Rightarrow> int \<times> int \<times> int \<times> int \<Rightarrow> error + image" where
  "crop img box =
     (case box of (left, upper, right, lower) \<Rightarrow>
        if right < left then Inl ValueError
        else if lower < upper then Inl ValueError
        else Inr \<lparr> width = nat (right - left), height = nat (lower - upper),
                  pixels = map (\<lambda>y. map (\<lambda>x. getpixel img (left + int x) (upper + int y))
                                          [0 ..< nat (right - left)])
                               [0 ..< nat (lower - upper)],
                  orientation = orientation img \<rparr>)"

text \<open>
  The seven \<^verbatim>\<open>Image.transpose\<close> methods on the rows of an image. \<open>columns\<close> lists the
  columns from left to right, each read from top to bottom.
\<close>

definition columns :: "image \<Rightarrow> pixel list list" where
  "columns img = map (\<lambda>x. map (\<lambda>r. r ! x) (pixels img)) [0 ..< width img]"

definition flip_left_right :: "image \<Rightarrow> image" where
  "flip_left_right img = img\<lparr> pixels := map rev (pixels img) \<rparr>"

definition flip_top_bottom :: "image \<Rightarrow> image" where
  "flip_top_bottom img = img\<lparr> pixels := rev (pixels img) \<rparr>"

definition rotate_180 :: "image \<Rightarrow> image" where
  "rotate_180 img = img\<lparr> pixels := rev (map rev (pixels img)) \<rparr>"

definition transpose_diag :: "image \<Rightarrow> image" where
  "transpose_diag img =
     img\<lparr> width := height img, height := width img, pixels := columns img \<rparr>"

definition rotate_90 :: "image \<Rightarrow> image" where
  "rotate_90 img =
     img\<lparr> width := height img, height := width img, pixels := rev (columns img) \<rparr>"

definition rotate_270 :: "image \<Rightarrow> image" where
  "rotate_270 img =
     img\<lparr> width := height img, height := width img, pixels := map rev (columns img) \<rparr>"

definition transverse :: "image \<Rightarrow> image" where
  "transverse img =
     img\<lparr> width := height img, height := width img,
          pixels := rev (map rev (columns img)) \<rparr>"

text \<open>
  \<^verbatim>\<open>ImageOps.exif_transpose\<close>: the orientation tag defaults to 1; the values 2 to 8 select
  a transpose method, and the transposed image has the tag removed; for any other value
  the result is a copy of the image.
\<close>

definition exif_transpose :: "image \<Rightarrow> image" where
  "exif_transpose img =
     (let orient = (case orientation img of None \<Rightarrow> 1 | Some k \<Rightarrow> k) in
      if orient = 2 then (flip_left_right img)\<lparr> orientation := None \<rparr>
      else if orient = 3 then (rotate_180 img)\<lparr> orientation := None \<rparr>
      else if orient = 4 then (flip_top_bottom img)\<lparr> orientation := None \<rparr>
      else if orient = 5 then (transpose_diag img)\<lparr> orientation := None \<rparr>
      else if orient = 6 then (rotate_270 img)\<lparr> orientation := None \<rparr>
      else if orient = 7 then (transverse img)\<lparr> orientation := None \<rparr>
      else if orient = 8 then (rotate_90 img)\<lparr> orientation := None \<rparr>
      else img)"

section \<open>Opening and cropping\<close>

text \<open>
  \<^verbatim>\<open>exif_safe_open\<close>. The decoder \<open>decode\<close> stands for
  \<^verbatim>\<open>Image.open(f).convert("RGB")\<close> on the bytes of \<open>f\<close>: it raises on bytes that are not
  an image and otherwise returns the RGB bitmap with the orientation tag of the file.
\<close>

definition exif_safe_open :: "(bytes \<Rightarrow> error + image) \<Rightarrow> bytes \<Rightarrow> error + image" where
  "exif_safe_open decode img_file =
     (case decode img_file of
        Inl e \<Rightarrow> Inl e
      | Inr img \<Rightarrow> Inr (exif_transpose img))"

text \<open>\<^verbatim>\<open>center_crop_square\<close>, with Python's integers and floor division.\<close>

definition center_crop_square :: "image \<Rightarrow> error + image" where
  "center_crop_square img =
     (let w = int (width img); h = int (height img);
          side = min w h;
          left = (w - side) div 2;
          top = (h - side) div 2
      in crop img (left, top, left + side, top + side))"

section \<open>Preprocessing\<close>

text \<open>
  \<^verbatim>\<open>Image.copy()\<close>: the same size, pixels and metadata, read pixel by pixel.
\<close>

definition copy_image :: "image \<Rightarrow> image" where
  "copy_image img =
     img\<lparr> pixels := map (\<lambda>y. map (\<lambda>x. getpixel img (int x) (int y)) [0 ..< width img])
                          [0 ..< height img] \<rparr>"

text \<open>
  \<^verbatim>\<open>Image.resize(size, resample)\<close>: when the requested size is the size of the image the
  result is a copy. Otherwise it raises \<^verbatim>\<open>ValueError\<close> when the requested width or
  height is below 1, and else the result has the requested size and keeps the metadata.
  Each pixel of the result is computed by the resampling filter from the source image.
  The filter (\<^verbatim>\<open>Image.Resampling.LANCZOS\<close> in the program) is a parameter: it gets the
  source image, the requested size and the coordinates of the pixel to compute.
\<close>

type_synonym resampler = "image \<Rightarrow> nat \<times> nat \<Rightarrow> nat \<Rightarrow> nat \<Rightarrow> pixel"

definition resize :: "resampler \<Rightarrow> image \<Rightarrow> int \<times> int \<Rightarrow> error + image" where
  "resize resample img sz =
     (case sz of (tw, th) \<Rightarrow>
        if (int (width img), int (height img)) = (tw, th) then Inr (copy_image img)
        else if tw < 1 \<or> th < 1 then Inl ValueError
        else Inr \<lparr> width = nat tw, height = nat th,
                  pixels = map (\<lambda>y. map (\<lambda>x. resample img (nat tw, nat th) x y) [0 ..< nat tw])
                               [0 ..< nat th],
                  orientation = orientation img \<rparr>)"

text \<open>\<^verbatim>\<open>np.array(img)\<close> of an RGB image: height, then width, then the three channels.\<close>

definition np_array :: "image \<Rightarrow> byte list list list" where
  "np_array img = map (map (\<lambda>(r, g, b). [r, g, b])) (pixels img)"

text \<open>
  \<^verbatim>\<open>preprocess_input(arr.astype(np.float32))\<close> works on each element by itself
  (for MobileNetV2: \<open>x / 127.5 - 1\<close> in 32-bit floating point). The map on one element
  is the parameter \<open>scale\<close>, so that nothing is said about floating-point values.
\<close>

definition preprocess_input :: "(byte \<Rightarrow> 'f) \<Rightarrow> byte list list list \<Rightarrow> 'f list list list" where
  "preprocess_input scale arr = map (map (map scale)) arr"

definition expand_dims :: "'f list list list \<Rightarrow> 'f list list list list" where
  "expand_dims arr = [arr]"

definition preprocess_image ::
  "resampler \<Rightarrow> (byte \<Rightarrow> 'f) \<Rightarrow> image \<Rightarrow> int \<times> int \<Rightarrow> bool \<Rightarrow> error + 'f list list list list"
where
  "preprocess_image resample scale img target do_crop =
     (case (if do_crop then center_crop_square img else Inr img) of
        Inl e \<Rightarrow> Inl e
      | Inr img1 \<Rightarrow>
          (case resize resample img1 target of
             Inl e \<Rightarrow> Inl e
           | Inr img2 \<Rightarrow> Inr (expand_dims (preprocess_input scale (np_array img2)))))"

text \<open>The default \<^verbatim>\<open>target_size=(224, 224)\<close> of \<^verbatim>\<open>preprocess_image\<close>.\<close>

definition default_target_size :: "int \<times> int" where
  "default_target_size = (224, 224)"

text \<open>A nested list is an array of shape \<open>(n0, n1, n2, n3)\<close>.\<close>

definition has_shape :: "'f list list list list \<Rightarrow> nat \<times> nat \<times> nat \<times> nat \<Rightarrow> bool" where
  "has_shape t sh =
     (case sh of (n0, n1, n2, n3) \<Rightarrow>
        length t = n0 \<and>
        list_all (\<lambda>a. length a = n1 \<and>
          list_all (\<lambda>b. length b = n2 \<and> list_all (\<lambda>c. length c = n3) b) a) t)"

section \<open>Fetching from a URL\<close>

text \<open>
  A \<^verbatim>\<open>requests.Response\<close>. The header dictionary of \<^verbatim>\<open>requests\<close> ignores the case of
  the names: it is a map from lower-case names.
\<close>

record response =
  status_code :: int
  headers :: "string \<rightharpoonup> string"
  content :: bytes

definition char_lower :: "char \<Rightarrow> char" where
  "char_lower c =
     (let n = (of_char c :: nat) in if 65 \<le> n \<and> n \<le> 90 then char_of (n + 32) else c)"

definition str_lower :: "string \<Rightarrow> string" where
  "str_lower s = map char_lower s"

text \<open>Python's \<^verbatim>\<open>sub in s\<close> on strings.\<close>

fun str_contains :: "string \<Rightarrow> string \<Rightarrow> bool" where
  "str_contains sub [] = (sub = [])"
| "str_contains sub (c # cs) = (take (length sub) (c # cs) = sub \<or> str_contains sub cs)"

definition headers_get :: "(string \<rightharpoonup> string) \<Rightarrow> string \<Rightarrow> string \<Rightarrow> string" where
  "headers_get hs name dflt =
     (case hs (str_lower name) of None \<Rightarrow> dflt | Some v \<Rightarrow> v)"

text \<open>
  \<^verbatim>\<open>Response.raise_for_status\<close> of \<^verbatim>\<open>requests\<close>: raises \<^verbatim>\<open>HTTPError\<close> for a status code
  from 400 to 499 (client error) and from 500 to 599 (server error), and returns
  for every other status code.
\<close>

definition raise_for_status :: "response \<Rightarrow> error + unit" where
  "raise_for_status r =
     (if 400 \<le> status_code r \<and> status_code r < 500 then Inl (HTTPError (status_code r))
      else if 500 \<le> status_code r \<and> status_code r < 600 then Inl (HTTPError (status_code r))
      else Inr ())"

text \<open>
  What lives longer than one run of the script, apart from the session state: the
  requests sent so far and the entries of the \<^verbatim>\<open>st.cache_data\<close> cache of
  \<^verbatim>\<open>fetch_image_from_url\<close>. The network is a parameter: for a URL and the number of
  requests sent before, it gives what \<^verbatim>\<open>requests.get\<close> (with redirects followed and the
  timeout of 10 seconds) does: an exception, or the final response.
\<close>

record world =
  requests_sent :: "string list"
  fetch_cache :: "string \<rightharpoonup> image"

type_synonym network = "string \<Rightarrow> nat \<Rightarrow> error + response"

definition requests_get :: "network \<Rightarrow> string \<Rightarrow> world \<Rightarrow> (error + response) \<times> world" where
  "requests_get net u w =
     (net u (length (requests_sent w)), w\<lparr> requests_sent := requests_sent w @ [u] \<rparr>)"

text \<open>The body of \<^verbatim>\<open>fetch_image_from_url\<close>, without its decorator.\<close>

definition fetch_image_from_url_body ::
  "network \<Rightarrow> (bytes \<Rightarrow> error + image) \<Rightarrow> string \<Rightarrow> world \<Rightarrow> (error + image) \<times> world"
where
  "fetch_image_from_url_body net decode u w =
     (case requests_get net u w of
        (Inl e, w') \<Rightarrow> (Inl e, w')
      | (Inr r, w') \<Rightarrow>
          (case raise_for_status r of
             Inl e \<Rightarrow> (Inl e, w')
           | Inr ok \<Rightarrow>
               (let ctype = headers_get (headers r) ''content-type'' [];
                    pass = (if \<not> str_contains ''image'' (str_lower ctype) then () else ())
                in (exif_safe_open decode (content r), w'))))"

text \<open>
  The decorator \<^verbatim>\<open>st.cache_data\<close>: a call whose argument has an entry returns the entry
  and does not run the function; otherwise the function runs, and its value is stored
  when it returns. An exception stores nothing.
\<close>

definition cache_data ::
  "(string \<Rightarrow> world \<Rightarrow> (error + image) \<times> world) \<Rightarrow> string \<Rightarrow> world \<Rightarrow> (error + image) \<times> world"
where
  "cache_data f key w =
     (case fetch_cache w key of
        Some v \<Rightarrow> (Inr v, w)
      | None \<Rightarrow>
          (case f key w of
             (Inl e, w') \<Rightarrow> (Inl e, w')
           | (Inr v, w') \<Rightarrow> (Inr v, w'\<lparr> fetch_cache := (fetch_cache w')(key \<mapsto> v) \<rparr>)))"

definition fetch_image_from_url ::
  "network \<Rightarrow> (bytes \<Rightarrow> error + image) \<Rightarrow> string \<Rightarrow> world \<Rightarrow> (error + image) \<times> world"
where
  "fetch_image_from_url net decode = cache_data (fetch_image_from_url_body net decode)"

text \<open>Any number of later calls, one after the other.\<close>

fun fetch_all ::
  "network \<Rightarrow> (bytes \<Rightarrow> error + image) \<Rightarrow> string list \<Rightarrow> world \<Rightarrow> world"
where
  "fetch_all net decode [] w = w"
| "fetch_all net decode (u # us) w =
     fetch_all net decode us (snd (fetch_image_from_url net decode u w))"

section \<open>The script\<close>

text \<open>
  \<^verbatim>\<open>st.session_state\<close> restricted to the two keys of the program. A key is absent in
  a new session, and holds \<^verbatim>\<open>None\<close> or a value afterwards.
\<close>

datatype 'a slot = Absent | PyNone | Val 'a

record session_state =
  img_bytes :: "bytes slot"
  img_source :: "string slot"

definition new_session :: session_state where
  "new_session = \<lparr> img_bytes = Absent, img_source = Absent \<rparr>"

text \<open>
  What one run gets from outside: the three sidebar controls, which the script reads
  and does not use; what \<^verbatim>\<open>load_model()\<close> does, an exception or the model, of which
  nothing is used; the file in the uploader, if any, as the outcome of its
  \<^verbatim>\<open>read()\<close>; the text of the URL field; whether the button was clicked.
\<close>

record inputs =
  topk :: int
  threshold :: real
  do_center_crop :: bool
  load_model :: "error + unit"
  uploaded_file :: "(error + bytes) option"
  url :: string
  load_btn :: bool

text \<open>
  What a run shows. \<open>StException\<close> is an exception that no handler of the script
  catches: Streamlit shows it and the run ends there.
\<close>

datatype ui =
    StException error
  | StError string error
  | StImage image "string slot"
  | StInfo string

definition init_session :: "session_state \<Rightarrow> session_state" where
  "init_session s =
     (let s1 = (if img_bytes s = Absent then s\<lparr> img_bytes := PyNone \<rparr> else s)
      in if img_source s1 = Absent then s1\<lparr> img_source := PyNone \<rparr> else s1)"

text \<open>Block 1 of \<^verbatim>\<open>main\<close>: the file upload.\<close>

definition upload_block :: "inputs \<Rightarrow> session_state \<Rightarrow> session_state \<times> ui list" where
  "upload_block inp s =
     (case uploaded_file inp of
        None \<Rightarrow> (s, [])
      | Some f \<Rightarrow>
          (case f of
             Inr b \<Rightarrow> ((s\<lparr> img_bytes := Val b \<rparr>)\<lparr> img_source := Val ''file'' \<rparr>, [])
           | Inl e \<Rightarrow> (s, [StError ''Failed to read uploaded image'' e])))"

text \<open>
  Block 2 of \<^verbatim>\<open>main\<close>: the URL load. \<open>png_save\<close> stands for
  \<^verbatim>\<open>img.save(buf, format="PNG")\<close> followed by \<^verbatim>\<open>buf.getvalue()\<close>.
\<close>

definition url_block ::
  "network \<Rightarrow> (bytes \<Rightarrow> error + image) \<Rightarrow> (image \<Rightarrow> error + bytes) \<Rightarrow> inputs
     \<Rightarrow> session_state \<times> world \<Rightarrow> session_state \<times> world \<times> ui list"
where
  "url_block net decode png_save inp sw =
     (case sw of (s, w) \<Rightarrow>
        if load_btn inp \<and> url inp \<noteq> [] then
          (case fetch_image_from_url net decode (url inp) w of
             (Inl e, w') \<Rightarrow> (s, w', [StError ''Failed to load from URL'' e])
           | (Inr img, w') \<Rightarrow>
               (case png_save img of
                  Inl e \<Rightarrow> (s, w', [StError ''Failed to load from URL'' e])
                | Inr b \<Rightarrow>
                    ((s\<lparr> img_bytes := Val b \<rparr>)\<lparr> img_source := Val ''URL'' \<rparr>, w', [])))
        else (s, w, []))"

text \<open>
  The end of \<^verbatim>\<open>main\<close>: the stored bytes are decoded again and shown. After the
  initialisation the key is never absent, so that reading it does not raise. The
  message of the other branch has quotation marks in it (character 0x22).
\<close>

definition no_image_info :: string where
  "no_image_info =
     ''Upload a file, or paste a URL and click '' @ [CHR 0x22] @ ''Load from URL''
       @ [CHR 0x22] @ ''.''"

definition render_block :: "(bytes \<Rightarrow> error + image) \<Rightarrow> session_state \<Rightarrow> ui list" where
  "render_block decode s =
     (case (case img_bytes s of
              Val b \<Rightarrow>
                (case exif_safe_open decode b of
                   Inl e \<Rightarrow> (None, [StError ''Could not decode image from memory'' e])
                 | Inr im \<Rightarrow> (Some im, []))
            | _ \<Rightarrow> (None, []))
      of
        (Some im, msgs) \<Rightarrow>
          msgs @ [StImage im (img_source s),
                  StInfo ''Clicking Classify will be enabled in the next step.'']
      | (None, msgs) \<Rightarrow>
          msgs @ [StInfo no_image_info])"

text \<open>
  \<^verbatim>\<open>main\<close>, one run of the script. \<^verbatim>\<open>load_model()\<close> is called first, outside every
  handler: when it raises, the run ends with nothing else done. Otherwise the two keys
  are initialised when absent, and then come the upload block, the URL block and the
  display. The page set-up and the sidebar have no effect on the session state or on
  what is loaded and are left out.
\<close>

definition main ::
  "network \<Rightarrow> (bytes \<Rightarrow> error + image) \<Rightarrow> (image \<Rightarrow> error + bytes) \<Rightarrow> inputs
     \<Rightarrow> session_state \<times> world \<Rightarrow> session_state \<times> world \<times> ui list"
where
  "main net decode png_save inp sw =
     (case sw of (s, w) \<Rightarrow>
        (case load_model inp of
           Inl e \<Rightarrow> (s, w, [StException e])
         | Inr model \<Rightarrow>
             (case upload_block inp (init_session s) of (s1, ui1) \<Rightarrow>
                (case url_block net decode png_save inp (s1, w) of (s2, w2, ui2) \<Rightarrow>
                   (s2, w2, ui1 @ ui2 @ render_block decode s2)))))"

text \<open>
  The states of a session: a new session starts with both keys absent, whatever the
  cache holds, and every run of the script, with any widget values, gives the next state.
\<close>

inductive reachable ::
  "network \<Rightarrow> (bytes \<Rightarrow> error + image) \<Rightarrow> (image \<Rightarrow> error + bytes)
     \<Rightarrow> session_state \<times> world \<Rightarrow> bool"
  for net decode png_save
where
  start: "reachable net decode png_save (new_session, w)"
| run: "reachable net decode png_save (s, w) \<Longrightarrow>
        main net decode png_save inp (s, w) = (s', w', out) \<Longrightarrow>
        reachable net decode png_save (s', w')"

code_pred reachable .

definition session_ok :: "session_state \<Rightarrow> bool" where
  "session_ok s =
     (case (img_bytes s, img_source s) of
        (Absent, Absent) \<Rightarrow> True
      | (PyNone, PyNone) \<Rightarrow> True
      | (Val b, Val tag) \<Rightarrow> tag = ''file'' \<or> tag = ''URL''
      | _ \<Rightarrow> False)"

text \<open>
  An image is upright when its orientation tag selects no transpose method, and a cache
  is upright when all its entries are.
\<close>

definition upright :: "image \<Rightarrow> bool" where
  "upright img = (case orientation img of None \<Rightarrow> True | Some k \<Rightarrow> k < 2 \<or> 8 < k)"

definition cache_upright :: "world \<Rightarrow> bool" where
  "cache_upright w \<longleftrightarrow> (\<forall>v \<in> ran (fetch_cache w). upright v)"

text \<open>
  What the program relies on from Pillow's PNG plugin: the format is lossless, so
  opening the bytes that \<^verbatim>\<open>save\<close> wrote gives the bitmap back, and the file has no
  orientation tag of its own: it has none, or the one of the image saved.
\<close>

definition lossless_png :: "(image \<Rightarrow> error + bytes) \<Rightarrow> (bytes \<Rightarrow> error + image) \<Rightarrow> bool" where
  "lossless_png png_save decode \<longleftrightarrow>
     (\<forall>img b. png_save img = Inr b \<longrightarrow>
        (\<exists>tag. decode b = Inr (img\<lparr> orientation := tag \<rparr>)
               \<and> (tag = None \<or> tag = orientation img)))"

section \<open>Filtering of predictions\<close>

text \<open>
  Modelled from the spec: the filtering of the ranked predictions by the confidence
  threshold and Top-K. \<^verbatim>\<open>src/app.py\<close> reads both sliders and stops before classification
  (it shows "Clicking Classify will be enabled in the next step."), so the step is
  taken from the specification: "take the model's full ranked list, drop entries below
  the threshold, then take the first Top-K of what remains".
\<close>

definition filter_predictions ::
  "'p::linorder \<Rightarrow> nat \<Rightarrow> (string \<times> 'p) list \<Rightarrow> (string \<times> 'p) list" where
  "filter_predictions T K ranked_list = take K (filter (\<lambda>(label, p). T \<le> p) ranked_list)"

text \<open>A ranked list: sorted by confidence, highest first.\<close>

definition ranked :: "(string \<times> 'p::linorder) list \<Rightarrow> bool" where
  "ranked xs = sorted_wrt (\<lambda>a b. snd b \<le> snd a) xs"

section \<open>Stand-ins for the libraries in the examples\<close>

text \<open>
  The examples below need a decoder, an encoder, a filter and a network to run on.
  The decoder reads a non-empty byte string as a grey image of one pixel and rejects the
  empty one; the encoder writes the red channel of the first pixel.
\<close>

definition stub_decode :: "bytes \<Rightarrow> error + image" where
  "stub_decode b =
     (case b of
        [] \<Rightarrow> Inl UnidentifiedImageError
      | v # rest \<Rightarrow> Inr \<lparr> width = 1, height = 1, pixels = [[(v, v, v)]], orientation = None \<rparr>)"

definition stub_png_save :: "image \<Rightarrow> error + bytes" where
  "stub_png_save img =
     (case pixels img of
        [] \<Rightarrow> Inl ValueError
      | row # rows \<Rightarrow> (case row of [] \<Rightarrow> Inl ValueError | p # ps \<Rightarrow> Inr [fst p]))"

definition stub_resample :: resampler where
  "stub_resample img sz x y = getpixel img 0 0"

definition stub_net :: network where
  "stub_net u n =
     (if u = ''https://example.org/cat.png''
      then Inr \<lparr> status_code = 200, headers = [''content-type'' \<mapsto> ''text/html''],
                 content = [7] \<rparr>
      else if u = ''https://example.org/choices''
      then Inr \<lparr> status_code = 300, headers = Map.empty, content = [9] \<rparr>
      else if u = ''https://example.org/missing''
      then Inr \<lparr> status_code = 404, headers = Map.empty, content = [] \<rparr>
      else if u = ''https://example.org/broken.png''
      then Inr \<lparr> status_code = 200, headers = [''content-type'' \<mapsto> ''image/png''],
                 content = [] \<rparr>
      else Inl ConnectionError)"

definition world0 :: world where
  "world0 = \<lparr> requests_sent = [], fetch_cache = Map.empty \<rparr>"

definition click_cat :: inputs where
  "click_cat = \<lparr> topk = 3, threshold = 0.05, do_center_crop = True, load_model = Inr (),
                 uploaded_file = None,
                 url = ''https://example.org/cat.png'', load_btn = True \<rparr>"

definition click_missing :: inputs where
  "click_missing = \<lparr> topk = 3, threshold = 0.05, do_center_crop = True,
                     load_model = Inr (), uploaded_file = None,
                     url = ''https://example.org/missing'', load_btn = True \<rparr>"

definition upload_empty :: inputs where
  "upload_empty = \<lparr> topk = 3, threshold = 0.05, do_center_crop = True,
                    load_model = Inr (), uploaded_file = Some (Inr []), url = [], load_btn = False \<rparr>"

definition scenario_probabilities :: "(string \<times> real) list" where
  "scenario_probabilities =
     [(''a'', 0.6), (''b'', 0.3), (''c'', 0.08), (''d'', 0.01), (''e'', 0.01)]"

text \<open>
  A second pair of stand-ins, for files that carry an orientation tag: a container that
  holds the tag (0 for none), then each pixel as the byte 1 and its three channels, the
  byte 0 at the end of each row and the byte 2 at the end of the file. The decoder reads
  it back and rejects everything else; the encoder writes it without a tag.
\<close>

definition enc_pixels :: "pixel list \<Rightarrow> bytes" where
  "enc_pixels row = concat (map (\<lambda>(r, g, b). [1, r, g, b]) row)"

definition enc_rows :: "pixel list list \<Rightarrow> bytes" where
  "enc_rows rows = concat (map (\<lambda>row. enc_pixels row @ [0]) rows)"

fun parse_rows :: "bytes \<Rightarrow> pixel list \<Rightarrow> pixel list list \<Rightarrow> pixel list list option" where
  "parse_rows [] cur acc = None"
| "parse_rows (t # rest) cur acc =
     (if t = 2 then (if rest = [] \<and> cur = [] then Some (rev acc) else None)
      else if t = 0 then parse_rows rest [] (rev cur # acc)
      else (case rest of
              r # g # b # rest' \<Rightarrow> parse_rows rest' ((r, g, b) # cur) acc
            | _ \<Rightarrow> None))"

definition demo_decode :: "bytes \<Rightarrow> error + image" where
  "demo_decode f =
     (case f of
        [] \<Rightarrow> Inl UnidentifiedImageError
      | t # body \<Rightarrow>
          (case parse_rows body [] [] of
             None \<Rightarrow> Inl UnidentifiedImageError
           | Some rows \<Rightarrow>
               if rows = [] \<or> hd rows = [] \<or> \<not> list_all (\<lambda>r. length r = length (hd rows)) rows
               then Inl UnidentifiedImageError
               else Inr \<lparr> width = length (hd rows), height = length rows, pixels = rows,
                         orientation = (if t = 0 then None else Some (unat t)) \<rparr>))"

definition demo_png_save :: "image \<Rightarrow> error + bytes" where
  "demo_png_save img =
     (if wf_image img \<and> 0 < width img \<and> 0 < height img
      then Inr (0 # enc_rows (pixels img) @ [2])
      else Inl ValueError)"

text \<open>
  A photograph of two pixels side by side, stored with the orientation tag 6 (to be
  turned a quarter clockwise), the image it shows, and that image encoded.
\<close>

definition photo_file :: bytes where
  "photo_file = [6, 1, 1, 2, 3, 1, 4, 5, 6, 0, 2]"

definition photo_upright :: image where
  "photo_upright =
     \<lparr> width = 1, height = 2, pixels = [[(1, 2, 3)], [(4, 5, 6)]], orientation = None \<rparr>"

definition photo_png :: bytes where
  "photo_png = [0, 1, 1, 2, 3, 0, 1, 4, 5, 6, 0, 2]"

definition photo_net :: network where
  "photo_net u n =
     (if u = ''https://example.org/photo.jpg''
      then Inr \<lparr> status_code = 200, headers = [''content-type'' \<mapsto> ''image/jpeg''],
                 content = photo_file \<rparr>
      else Inl ConnectionError)"

definition click_photo :: inputs where
  "click_photo = \<lparr> topk = 3, threshold = 0.05, do_center_crop = True, load_model = Inr (),
                   uploaded_file = None, url = ''https://example.org/photo.jpg'',
                   load_btn = True \<rparr>"

definition wide_image :: image where
  "wide_image =
     \<lparr> width = 5, height = 2,
       pixels = [[(10, 0, 0), (11, 0, 0), (12, 0, 0), (13, 0, 0), (14, 0, 0)],
                 [(20, 0, 0), (21, 0, 0), (22, 0, 0), (23, 0, 0), (24, 0, 0)]],
       orientation = None \<rparr>"

definition square_image :: image where
  "square_image =
     \<lparr> width = 2, height = 2,
       pixels = [[(1, 2, 3), (4, 5, 6)], [(7, 8, 9), (10, 11, 12)]],
       orientation = None \<rparr>"

section \<open>Properties of the centre crop\<close>

lemma map_nth_rows:
  assumes "length rows = h" and "list_all (\<lambda>r. length r = w) rows"
  shows "map (\<lambda>y. map (\<lambda>x. rows ! y ! x) [0 ..< w]) [0 ..< h] = rows"
proof (rule nth_equalityI)
  show "length (map (\<lambda>y. map (\<lambda>x. rows ! y ! x) [0 ..< w]) [0 ..< h]) = length rows"
    using assms by simp
next
  fix i
  assume "i < length (map (\<lambda>y. map (\<lambda>x. rows ! y ! x) [0 ..< w]) [0 ..< h])"
  then have i: "i < h" by simp
  then have "length (rows ! i) = w"
    using assms by (simp add: list_all_length)
  then have "map (\<lambda>x. rows ! i ! x) [0 ..< w] = rows ! i"
    using map_nth [of "rows ! i"] by simp
  then show "map (\<lambda>y. map (\<lambda>x. rows ! y ! x) [0 ..< w]) [0 ..< h] ! i = rows ! i"
    using i by simp
qed

lemma crop_full:
  assumes "wf_image img"
  shows "crop img (0, 0, int (width img), int (height img)) = Inr img"
proof -
  have rows: "map (\<lambda>y. map (\<lambda>x. getpixel img (int x) (int y)) [0 ..< width img])
                  [0 ..< height img]
              = map (\<lambda>y. map (\<lambda>x. pixels img ! y ! x) [0 ..< width img]) [0 ..< height img]"
    by (simp add: getpixel_def)
  have "map (\<lambda>y. map (\<lambda>x. pixels img ! y ! x) [0 ..< width img]) [0 ..< height img]
        = pixels img"
    using assms by (intro map_nth_rows) (simp_all add: wf_image_def)
  with rows show ?thesis
    by (simp add: crop_def)
qed

lemma crop_inside:
  assumes "l + s \<le> width img" and "t + s \<le> height img"
  shows "\<exists>c. crop img (int l, int t, int l + int s, int t + int s) = Inr c
           \<and> width c = s \<and> height c = s \<and> length (pixels c) = s
           \<and> orientation c = orientation img
           \<and> (\<forall>y < s. length (pixels c ! y) = s
                 \<and> (\<forall>x < s. pixels c ! y ! x = pixels img ! (t + y) ! (l + x)))"
proof -
  define c where "c = \<lparr> width = s, height = s,
              pixels = map (\<lambda>y. map (\<lambda>x. getpixel img (int l + int x) (int t + int y)) [0 ..< s])
                           [0 ..< s],
              orientation = orientation img \<rparr>"
  have res: "crop img (int l, int t, int l + int s, int t + int s) = Inr c"
    by (simp add: crop_def c_def)
  have sz: "width c = s" "height c = s" "length (pixels c) = s" "orientation c = orientation img"
    by (simp_all add: c_def)
  have pix: "length (pixels c ! y) = s
               \<and> (\<forall>x < s. pixels c ! y ! x = pixels img ! (t + y) ! (l + x))" if y: "y < s" for y
  proof (intro allI impI conjI)
    show "length (pixels c ! y) = s" using y by (simp add: c_def)
  next
    fix x assume x: "x < s"
    have "int l + int x < int (width img)" and "int t + int y < int (height img)"
      using assms x y by linarith+
    then have "getpixel img (int l + int x) (int t + int y) = pixels img ! (t + y) ! (l + x)"
      by (simp add: getpixel_def nat_add_distrib)
    then show "pixels c ! y ! x = pixels img ! (t + y) ! (l + x)"
      using x y by (simp add: c_def)
  qed
  from res sz pix show ?thesis by blast
qed

lemma center_crop_square_box:
  fixes img :: image
  defines "s \<equiv> min (width img) (height img)"
  shows "center_crop_square img =
           crop img (int ((width img - s) div 2), int ((height img - s) div 2),
                     int ((width img - s) div 2) + int s, int ((height img - s) div 2) + int s)"
proof -
  have s: "min (int (width img)) (int (height img)) = int s"
    by (simp add: s_def)
  have l: "(int (width img) - int s) div 2 = int ((width img - s) div 2)"
    by (simp add: s_def zdiv_int)
  have t: "(int (height img) - int s) div 2 = int ((height img - s) div 2)"
    by (simp add: s_def zdiv_int)
  show ?thesis
    by (simp add: center_crop_square_def Let_def s l t)
qed

lemma half_trim:
  fixes e :: nat
  shows "e - e div 2 = e div 2 + e mod 2" and "e div 2 \<le> e"
proof -
  define q where "q = e div 2"
  define r where "r = e mod 2"
  have "e = 2 * q + r"
    by (simp add: q_def r_def)
  then have "e - q = q + r" and "q \<le> e"
    by linarith+
  then show "e - e div 2 = e div 2 + e mod 2" and "e div 2 \<le> e"
    unfolding q_def r_def .
qed

lemma center_trim:
  fixes W H :: nat
  assumes s_def: "s = min W H"
    and l_def: "l = (W - s) div 2" and t_def: "t = (H - s) div 2"
  shows "l + s \<le> W" and "t + s \<le> H" and "l = 0 \<or> t = 0"
    and "W - (l + s) = l + (W - s) mod 2" and "H - (t + s) = t + (H - s) mod 2"
proof -
  have s: "s \<le> W" "s \<le> H"
    by (simp_all add: s_def)
  have l: "l \<le> W - s" "(W - s) - l = l + (W - s) mod 2"
    unfolding l_def by (rule half_trim(2), rule half_trim(1))
  have t: "t \<le> H - s" "(H - s) - t = t + (H - s) mod 2"
    unfolding t_def by (rule half_trim(2), rule half_trim(1))
  show "l + s \<le> W" using s(1) l(1) by linarith
  show "t + s \<le> H" using s(2) t(1) by linarith
  have "W - s = 0 \<or> H - s = 0"
    by (simp add: s_def min_def)
  then show "l = 0 \<or> t = 0"
    using l(1) t(1) by auto
  have "W - (l + s) = (W - s) - l" by simp
  then show "W - (l + s) = l + (W - s) mod 2" using l(2) by simp
  have "H - (t + s) = (H - s) - t" by simp
  then show "H - (t + s) = t + (H - s) mod 2" using t(2) by simp
qed

text \<open>
  Claim C4. For an image of width \<open>W\<close> and height \<open>H\<close>, \<^verbatim>\<open>center_crop_square\<close> returns
  the square of side \<open>s = min W H\<close> whose pixel \<open>(x, y)\<close> is the pixel
  \<open>(l + x, t + y)\<close> of the image, with the offsets \<open>l = (W - s) div 2\<close> and
  \<open>t = (H - s) div 2\<close>: the trim before the square is the excess halved and rounded
  down, the trim after it is larger by one exactly when the excess is odd, and the
  shorter axis is not trimmed. For a square image the crop returns the image itself.
\<close>

theorem center_crop_square_centered:
  assumes "W = width img" and "H = height img" and "s = min W H"
    and "l = (W - s) div 2" and "t = (H - s) div 2"
  shows "\<exists>c. center_crop_square img = Inr c
           \<and> width c = s \<and> height c = s \<and> length (pixels c) = s
           \<and> (\<forall>y < s. length (pixels c ! y) = s
                 \<and> (\<forall>x < s. pixels c ! y ! x = pixels img ! (t + y) ! (l + x)))
           \<and> W - (l + s) = l + (W - s) mod 2
           \<and> H - (t + s) = t + (H - s) mod 2
           \<and> (l = 0 \<or> t = 0)
           \<and> (wf_image img \<and> W = H \<longrightarrow> c = img)"
proof -
  note trim = center_trim [OF assms(3,4,5)]
  have box: "center_crop_square img = crop img (int l, int t, int l + int s, int t + int s)"
    unfolding assms by (rule center_crop_square_box)
  have "l + s \<le> width img" and "t + s \<le> height img"
    using trim(1,2) assms(1,2) by simp_all
  from crop_inside [OF this] obtain c where
    c: "crop img (int l, int t, int l + int s, int t + int s) = Inr c"
    and sz: "width c = s" "height c = s" "length (pixels c) = s"
    and pix: "\<forall>y < s. length (pixels c ! y) = s
                 \<and> (\<forall>x < s. pixels c ! y ! x = pixels img ! (t + y) ! (l + x))"
    by blast
  have noop: "c = img" if sq: "wf_image img \<and> W = H"
  proof -
    have "s = W" and "s = H"
      using sq assms(3) by simp_all
    then have "s = width img" and "s = height img" and "l = 0" and "t = 0"
      using assms(1,2,4,5) by simp_all
    then have "crop img (int l, int t, int l + int s, int t + int s)
               = crop img (0, 0, int (width img), int (height img))"
      by simp
    also have "\<dots> = Inr img"
      using sq by (simp add: crop_full)
    finally show ?thesis
      using c by simp
  qed
  from box c sz pix trim(3,4,5) noop show ?thesis
    by (intro exI [of _ c] conjI impI) simp_all
qed

text \<open>The claim on a 5 by 2 image (excess 3: one column trimmed on the left, two on the
  right) and on a 2 by 2 image.\<close>

theorem center_crop_square_centered_witness:
  "(\<exists>c. center_crop_square wide_image = Inr c \<and> width c = 2 \<and> height c = 2
        \<and> pixels c ! 0 ! 0 = (11, 0, 0) \<and> pixels c ! 1 ! 1 = (22, 0, 0)
        \<and> (5::nat) - (1 + 2) = 1 + (5 - 2) mod 2)
   \<and> wf_image square_image \<and> center_crop_square square_image = Inr square_image"
proof -
  have h: "5 = width wide_image" "2 = height wide_image" "(2::nat) = min 5 2"
    "(1::nat) = (5 - 2) div 2" "(0::nat) = (2 - 2) div 2"
    by (simp_all add: wide_image_def)
  from center_crop_square_centered [OF h] obtain c where
    c: "center_crop_square wide_image = Inr c" "width c = 2" "height c = 2"
    and pix: "\<forall>y < 2. length (pixels c ! y) = 2
                \<and> (\<forall>x < 2. pixels c ! y ! x = pixels wide_image ! (0 + y) ! (1 + x))"
    and trim: "(5::nat) - (1 + 2) = 1 + (5 - 2) mod 2"
    by blast
  from pix have "pixels c ! 0 ! 0 = pixels wide_image ! (0 + 0) ! (1 + 0)"
    and "pixels c ! 1 ! 1 = pixels wide_image ! (0 + 1) ! (1 + 1)"
    by simp_all
  then have p: "pixels c ! 0 ! 0 = (11, 0, 0)" "pixels c ! 1 ! 1 = (22, 0, 0)"
    by (simp_all add: wide_image_def)
  have g: "2 = width square_image" "2 = height square_image" "(2::nat) = min 2 2"
    "(0::nat) = (2 - 2) div 2"
    by (simp_all add: square_image_def)
  have wf: "wf_image square_image"
    by (simp add: wf_image_def square_image_def)
  from center_crop_square_centered [OF g g(4)] wf
  have "center_crop_square square_image = Inr square_image"
    by auto
  with c p trim wf show ?thesis
    by blast
qed

section \<open>Shape of the tensor\<close>

lemma center_crop_square_returns:
  "\<exists>c. center_crop_square img = Inr c \<and> width c = min (width img) (height img)
        \<and> height c = min (width img) (height img)"
proof -
  define s where "s = min (width img) (height img)"
  define l where "l = (width img - s) div 2"
  define t where "t = (height img - s) div 2"
  have "l + s \<le> width img" and "t + s \<le> height img"
    using center_trim [OF s_def l_def t_def] by simp_all
  from crop_inside [OF this] center_crop_square_box [of img]
  show ?thesis
    unfolding s_def l_def t_def by auto
qed

lemma copy_image_same:
  assumes "wf_image img"
  shows "copy_image img = img"
proof -
  have "map (\<lambda>y. map (\<lambda>x. getpixel img (int x) (int y)) [0 ..< width img])
            [0 ..< height img]
        = map (\<lambda>y. map (\<lambda>x. pixels img ! y ! x) [0 ..< width img]) [0 ..< height img]"
    by (simp add: getpixel_def)
  also have "\<dots> = pixels img"
    using assms by (intro map_nth_rows) (simp_all add: wf_image_def)
  finally show ?thesis
    by (simp add: copy_image_def)
qed

lemma resize_shape:
  assumes "1 \<le> tw" and "1 \<le> th"
  shows "\<exists>r. resize resample img (tw, th) = Inr r
           \<and> has_shape (expand_dims (preprocess_input scale (np_array r)))
                (1, nat th, nat tw, 3)"
  using assms
  by (auto simp: resize_def copy_image_def has_shape_def expand_dims_def preprocess_input_def
      np_array_def list_all_iff split_beta)

text \<open>
  Claim C1. For every image with a positive width and a positive height, of any size
  (below 224 as well), and for either value of the crop flag, \<^verbatim>\<open>preprocess_image\<close> with
  its default target size raises nothing and returns an array of shape
  \<open>(1, 224, 224, 3)\<close>, whatever the resampling filter and the scaling of the elements.
\<close>

theorem preprocess_image_shape:
  assumes "0 < width img" and "0 < height img"
  shows "\<exists>t. preprocess_image resample scale img default_target_size do_crop = Inr t
           \<and> has_shape t (1, 224, 224, 3)"
proof -
  obtain img1 where img1: "(if do_crop then center_crop_square img else Inr img) = Inr img1"
    using center_crop_square_returns [of img] by (cases do_crop) auto
  from resize_shape [of 224 224 resample img1 scale] obtain r where
    r: "resize resample img1 (224, 224) = Inr r"
    and sh: "has_shape (expand_dims (preprocess_input scale (np_array r))) (1, 224, 224, 3)"
    by auto
  from img1 r sh show ?thesis
    by (simp add: preprocess_image_def default_target_size_def)
qed

theorem preprocess_image_shape_witness:
  "0 < width wide_image \<and> 0 < height wide_image
   \<and> (\<exists>t. preprocess_image stub_resample (\<lambda>b. real (unat b) / 127.5 - 1) wide_image
             default_target_size True = Inr t \<and> has_shape t (1, 224, 224, 3))
   \<and> (\<exists>t. preprocess_image stub_resample (\<lambda>b. real (unat b) / 127.5 - 1) wide_image
             default_target_size False = Inr t \<and> has_shape t (1, 224, 224, 3))"
proof -
  have h: "0 < width wide_image" "0 < height wide_image"
    by (simp_all add: wide_image_def)
  from h preprocess_image_shape [OF h] show ?thesis
    by blast
qed

section \<open>The status check and the content type\<close>

lemma fetch_body_response:
  assumes "net u (length (requests_sent w)) = Inr r"
  shows "fst (fetch_image_from_url_body net decode u w) =
           (case raise_for_status r of
              Inl e \<Rightarrow> Inl e
            | Inr ok \<Rightarrow> exif_safe_open decode (content r))"
  using assms
  by (simp add: fetch_image_from_url_body_def requests_get_def Let_def split: sum.splits)

lemma fetch_body_world:
  "snd (fetch_image_from_url_body net decode u w) = w\<lparr> requests_sent := requests_sent w @ [u] \<rparr>"
  by (simp add: fetch_image_from_url_body_def requests_get_def Let_def split: sum.splits)

text \<open>
  The status check lets a final status outside 400 to 599 through: a response with
  status 300 and a body that decodes is fetched as an image.
\<close>

theorem fetch_status_counterexample:
  "stub_net ''https://example.org/choices'' (length (requests_sent world0))
     = Inr \<lparr> status_code = 300, headers = Map.empty, content = [9] \<rparr>
   \<and> \<not> (200 \<le> (300::int) \<and> (300::int) < 300)
   \<and> fst (fetch_image_from_url_body stub_net stub_decode ''https://example.org/choices'' world0)
     = Inr \<lparr> width = 1, height = 1, pixels = [[(9, 9, 9)]], orientation = None \<rparr>"
proof -
  have a: "stub_net ''https://example.org/choices'' (length (requests_sent world0))
     = Inr \<lparr> status_code = 300, headers = Map.empty, content = [9] \<rparr>"
    by (simp add: stub_net_def)
  from fetch_body_response [where net = stub_net and w = world0 and decode = stub_decode, OF a]
  have "fst (fetch_image_from_url_body stub_net stub_decode ''https://example.org/choices'' world0)
     = Inr \<lparr> width = 1, height = 1, pixels = [[(9, 9, 9)]], orientation = None \<rparr>"
    by (simp add: raise_for_status_def exif_safe_open_def stub_decode_def exif_transpose_def)
  with a show ?thesis by simp
qed

text \<open>
  Claim C5, as the code has it. When \<^verbatim>\<open>requests.get\<close> returns a response, the fetch
  raises \<^verbatim>\<open>HTTPError\<close> at the status check for every final status code from 400 to
  599. Every other final status code passes the status check, all of 2xx included, and
  the fetch then returns or raises what decoding the body returns or raises.
\<close>

theorem fetch_status_check:
  assumes "net u (length (requests_sent w)) = Inr r"
  shows "(400 \<le> status_code r \<and> status_code r < 600 \<longrightarrow>
            fst (fetch_image_from_url_body net decode u w) = Inl (HTTPError (status_code r)))
       \<and> (\<not> (400 \<le> status_code r \<and> status_code r < 600) \<longrightarrow>
            fst (fetch_image_from_url_body net decode u w) = exif_safe_open decode (content r))
       \<and> (200 \<le> status_code r \<and> status_code r < 300 \<longrightarrow>
            fst (fetch_image_from_url_body net decode u w) = exif_safe_open decode (content r))"
  using fetch_body_response [where net = net and decode = decode, OF assms]
  by (auto simp: raise_for_status_def)

theorem fetch_status_check_witness:
  "fst (fetch_image_from_url_body stub_net stub_decode ''https://example.org/missing'' world0)
     = Inl (HTTPError 404)
   \<and> fst (fetch_image_from_url_body stub_net stub_decode ''https://example.org/cat.png'' world0)
     = exif_safe_open stub_decode [7]"
proof -
  have a: "stub_net ''https://example.org/missing'' (length (requests_sent world0))
             = Inr \<lparr> status_code = 404, headers = Map.empty, content = [] \<rparr>"
    by (simp add: stub_net_def)
  have b: "stub_net ''https://example.org/cat.png'' (length (requests_sent world0))
             = Inr \<lparr> status_code = 200, headers = [''content-type'' \<mapsto> ''text/html''],
                      content = [7] \<rparr>"
    by (simp add: stub_net_def)
  from fetch_status_check [where net = stub_net and decode = stub_decode, OF a]
    fetch_status_check [where net = stub_net and decode = stub_decode, OF b]
  show ?thesis by simp
qed

lemma fetch_cached_succeeds:
  assumes "fst (fetch_image_from_url_body net decode u w) = Inr v"
  shows "\<exists>v'. fst (fetch_image_from_url net decode u w) = Inr v'"
  using assms
  by (cases "fetch_image_from_url_body net decode u w")
     (auto simp: fetch_image_from_url_def cache_data_def split: option.splits)

text \<open>
  Claim C6. For a response with a 2xx status, whatever its headers are (a missing or a
  non-image content type included), the fetch succeeds when the body decodes, with the
  decoded image after EXIF transposition, and it raises the decoder's exception when
  the body does not decode.
\<close>

theorem fetch_ignores_content_type:
  assumes "net u (length (requests_sent w)) = Inr (r\<lparr> headers := hs \<rparr>)"
    and "200 \<le> status_code r" and "status_code r < 300"
  shows "(\<forall>img. decode (content r) = Inr img \<longrightarrow>
            fst (fetch_image_from_url_body net decode u w) = Inr (exif_transpose img)
            \<and> (\<exists>v. fst (fetch_image_from_url net decode u w) = Inr v))
       \<and> (\<forall>e. decode (content r) = Inl e \<longrightarrow>
            fst (fetch_image_from_url_body net decode u w) = Inl e)"
proof -
  have "raise_for_status (r\<lparr> headers := hs \<rparr>) = Inr ()"
    using assms(2,3) by (simp add: raise_for_status_def)
  then have body: "fst (fetch_image_from_url_body net decode u w) = exif_safe_open decode (content r)"
    using fetch_body_response [where net = net and decode = decode, OF assms(1)] by simp
  show ?thesis
  proof (intro conjI allI impI)
    fix img assume "decode (content r) = Inr img"
    then show b: "fst (fetch_image_from_url_body net decode u w) = Inr (exif_transpose img)"
      using body by (simp add: exif_safe_open_def)
    then show "\<exists>v. fst (fetch_image_from_url net decode u w) = Inr v"
      by (rule fetch_cached_succeeds)
  next
    fix e assume "decode (content r) = Inl e"
    then show "fst (fetch_image_from_url_body net decode u w) = Inl e"
      using body by (simp add: exif_safe_open_def)
  qed
qed

theorem fetch_ignores_content_type_witness:
  "stub_net ''https://example.org/cat.png'' (length (requests_sent world0))
     = Inr (\<lparr> status_code = 200, headers = Map.empty, content = [7] \<rparr>
             \<lparr> headers := [''content-type'' \<mapsto> ''text/html''] \<rparr>)
   \<and> fst (fetch_image_from_url_body stub_net stub_decode ''https://example.org/cat.png'' world0)
     = Inr \<lparr> width = 1, height = 1, pixels = [[(7, 7, 7)]], orientation = None \<rparr>
   \<and> fst (fetch_image_from_url_body stub_net stub_decode ''https://example.org/broken.png''
          world0)
     = Inl UnidentifiedImageError"
proof -
  have c: "stub_net ''https://example.org/broken.png'' (length (requests_sent world0))
     = Inr (\<lparr> status_code = 200, headers = Map.empty, content = [] \<rparr>
             \<lparr> headers := [''content-type'' \<mapsto> ''image/png''] \<rparr>)"
    by (simp add: stub_net_def)
  have e: "stub_decode [] = Inl UnidentifiedImageError"
    by (simp add: stub_decode_def)
  from fetch_ignores_content_type [where net = stub_net and decode = stub_decode, OF c] e
  have broken: "fst (fetch_image_from_url_body stub_net stub_decode
                       ''https://example.org/broken.png'' world0)
                  = Inl UnidentifiedImageError"
    by simp
  have a: "stub_net ''https://example.org/cat.png'' (length (requests_sent world0))
     = Inr (\<lparr> status_code = 200, headers = Map.empty, content = [7] \<rparr>
             \<lparr> headers := [''content-type'' \<mapsto> ''text/html''] \<rparr>)"
    by (simp add: stub_net_def)
  have d: "stub_decode [7] = Inr \<lparr> width = 1, height = 1, pixels = [[(7, 7, 7)]], orientation = None \<rparr>"
    by (simp add: stub_decode_def)
  from fetch_ignores_content_type [where net = stub_net and decode = stub_decode, OF a] d
  have "fst (fetch_image_from_url_body stub_net stub_decode ''https://example.org/cat.png'' world0)
          = Inr (exif_transpose \<lparr> width = 1, height = 1, pixels = [[(7, 7, 7)]], orientation = None \<rparr>)"
    by simp
  with a broken show ?thesis
    by (simp add: exif_transpose_def)
qed

section \<open>The cache of fetched images\<close>

lemma fetch_hit:
  assumes "fetch_cache w u = Some v"
  shows "fetch_image_from_url net decode u w = (Inr v, w)"
  using assms by (simp add: fetch_image_from_url_def cache_data_def)

lemma fetch_stores:
  assumes "fetch_image_from_url net decode u w = (Inr v, w1)"
  shows "fetch_cache w1 u = Some v"
  using assms
  by (cases "fetch_image_from_url_body net decode u w")
     (auto simp: fetch_image_from_url_def cache_data_def split: option.splits sum.splits)

lemma fetch_cache_after:
  "fetch_cache (snd (fetch_image_from_url net decode u w)) =
     (case fetch_cache w u of
        Some v \<Rightarrow> fetch_cache w
      | None \<Rightarrow>
          (case fst (fetch_image_from_url_body net decode u w) of
             Inl e \<Rightarrow> fetch_cache w
           | Inr v \<Rightarrow> (fetch_cache w)(u \<mapsto> v)))"
proof -
  have "fetch_cache (snd (fetch_image_from_url_body net decode u w)) = fetch_cache w"
    by (simp add: fetch_body_world)
  then show ?thesis
    by (cases "fetch_image_from_url_body net decode u w")
       (auto simp: fetch_image_from_url_def cache_data_def split: option.splits sum.splits)
qed

lemma fetch_keeps_entry:
  assumes "fetch_cache w k = Some v"
  shows "fetch_cache (snd (fetch_image_from_url net decode u w)) k = Some v"
  using assms by (auto simp: fetch_cache_after split: option.splits sum.splits)

lemma fetch_all_keeps_entry:
  assumes "fetch_cache w k = Some v"
  shows "fetch_cache (fetch_all net decode us w) k = Some v"
  using assms
proof (induction us arbitrary: w)
  case Nil
  then show ?case by simp
next
  case (Cons u us)
  from Cons.prems have "fetch_cache (snd (fetch_image_from_url net decode u w)) k = Some v"
    by (rule fetch_keeps_entry)
  then show ?case
    by (simp add: Cons.IH)
qed

text \<open>
  Claim C8. After a fetch of a URL has succeeded, and after any number of later fetches
  of any URLs, a fetch of the same URL returns the same image and leaves the world as it
  is: no request is sent.
\<close>

theorem fetch_memoized:
  assumes "fetch_image_from_url net decode u w = (Inr img, w1)"
    and "w2 = fetch_all net decode us w1"
  shows "fetch_image_from_url net decode u w2 = (Inr img, w2)
       \<and> requests_sent (snd (fetch_image_from_url net decode u w2)) = requests_sent w2"
proof -
  have "fetch_cache w1 u = Some img"
    using assms(1) by (rule fetch_stores)
  then have "fetch_cache w2 u = Some img"
    unfolding assms(2) by (rule fetch_all_keeps_entry)
  then have "fetch_image_from_url net decode u w2 = (Inr img, w2)"
    by (rule fetch_hit)
  then show ?thesis by simp
qed

theorem fetch_memoized_witness:
  "fetch_image_from_url stub_net stub_decode ''https://example.org/cat.png'' world0
     = (Inr \<lparr> width = 1, height = 1, pixels = [[(7, 7, 7)]], orientation = None \<rparr>,
        \<lparr> requests_sent = [''https://example.org/cat.png''],
          fetch_cache = [''https://example.org/cat.png'' \<mapsto>
            \<lparr> width = 1, height = 1, pixels = [[(7, 7, 7)]], orientation = None \<rparr>] \<rparr>)
   \<and> fetch_image_from_url stub_net stub_decode ''https://example.org/cat.png''
        (fetch_all stub_net stub_decode
           [''https://example.org/missing'', ''https://example.org/cat.png'']
           \<lparr> requests_sent = [''https://example.org/cat.png''],
             fetch_cache = [''https://example.org/cat.png'' \<mapsto>
               \<lparr> width = 1, height = 1, pixels = [[(7, 7, 7)]], orientation = None \<rparr>] \<rparr>)
     = (Inr \<lparr> width = 1, height = 1, pixels = [[(7, 7, 7)]], orientation = None \<rparr>,
        fetch_all stub_net stub_decode
           [''https://example.org/missing'', ''https://example.org/cat.png'']
           \<lparr> requests_sent = [''https://example.org/cat.png''],
             fetch_cache = [''https://example.org/cat.png'' \<mapsto>
               \<lparr> width = 1, height = 1, pixels = [[(7, 7, 7)]], orientation = None \<rparr>] \<rparr>)"
proof -
  have a: "fetch_image_from_url stub_net stub_decode ''https://example.org/cat.png'' world0
     = (Inr \<lparr> width = 1, height = 1, pixels = [[(7, 7, 7)]], orientation = None \<rparr>,
        \<lparr> requests_sent = [''https://example.org/cat.png''],
          fetch_cache = [''https://example.org/cat.png'' \<mapsto>
            \<lparr> width = 1, height = 1, pixels = [[(7, 7, 7)]], orientation = None \<rparr>] \<rparr>)"
    by (simp add: fetch_image_from_url_def cache_data_def fetch_image_from_url_body_def
        requests_get_def world0_def stub_net_def raise_for_status_def exif_safe_open_def
        stub_decode_def exif_transpose_def Let_def)
  from fetch_memoized
         [where us = "[''https://example.org/missing'', ''https://example.org/cat.png'']",
          OF a refl]
  have b: "fetch_image_from_url stub_net stub_decode ''https://example.org/cat.png''
        (fetch_all stub_net stub_decode
           [''https://example.org/missing'', ''https://example.org/cat.png'']
           \<lparr> requests_sent = [''https://example.org/cat.png''],
             fetch_cache = [''https://example.org/cat.png'' \<mapsto>
               \<lparr> width = 1, height = 1, pixels = [[(7, 7, 7)]], orientation = None \<rparr>] \<rparr>)
     = (Inr \<lparr> width = 1, height = 1, pixels = [[(7, 7, 7)]], orientation = None \<rparr>,
        fetch_all stub_net stub_decode
           [''https://example.org/missing'', ''https://example.org/cat.png'']
           \<lparr> requests_sent = [''https://example.org/cat.png''],
             fetch_cache = [''https://example.org/cat.png'' \<mapsto>
               \<lparr> width = 1, height = 1, pixels = [[(7, 7, 7)]], orientation = None \<rparr>] \<rparr>)"
    by (rule conjunct1)
  from a b show ?thesis
    by (rule conjI)
qed

section \<open>The two fields of the session state\<close>

lemma init_session_ok:
  assumes "session_ok s"
  shows "session_ok (init_session s)"
  using assms
  by (cases s; cases "img_bytes s"; cases "img_source s")
     (auto simp: session_ok_def init_session_def Let_def)

lemma upload_block_cases:
  "fst (upload_block inp s) = s
   \<or> (\<exists>b. fst (upload_block inp s) = \<lparr> img_bytes = Val b, img_source = Val ''file'' \<rparr>)"
  by (cases s) (auto simp: upload_block_def split: option.splits sum.splits)

lemma url_block_cases:
  "fst (url_block net decode png_save inp (s, w)) = s
   \<or> (\<exists>b. fst (url_block net decode png_save inp (s, w))
            = \<lparr> img_bytes = Val b, img_source = Val ''URL'' \<rparr>)"
  by (cases s) (auto simp: url_block_def split: option.splits sum.splits prod.splits)

lemma upload_block_ok:
  assumes "session_ok s"
  shows "session_ok (fst (upload_block inp s))"
proof -
  from upload_block_cases [of inp s] show ?thesis
  proof (elim disjE exE)
    assume "fst (upload_block inp s) = s"
    with assms show ?thesis by simp
  next
    fix b
    assume "fst (upload_block inp s) = \<lparr> img_bytes = Val b, img_source = Val ''file'' \<rparr>"
    then show ?thesis by (simp add: session_ok_def)
  qed
qed

lemma url_block_ok:
  assumes "session_ok s"
  shows "session_ok (fst (url_block net decode png_save inp (s, w)))"
proof -
  from url_block_cases [of net decode png_save inp s w] show ?thesis
  proof (elim disjE exE)
    assume "fst (url_block net decode png_save inp (s, w)) = s"
    with assms show ?thesis by simp
  next
    fix b
    assume "fst (url_block net decode png_save inp (s, w))
              = \<lparr> img_bytes = Val b, img_source = Val ''URL'' \<rparr>"
    then show ?thesis by (simp add: session_ok_def)
  qed
qed

lemma main_aborted:
  assumes "load_model inp = Inl e"
  shows "main net decode png_save inp (s, w) = (s, w, [StException e])"
  using assms by (simp add: main_def)

lemma main_session:
  assumes "load_model inp = Inr m"
  shows "fst (main net decode png_save inp (s, w)) =
     fst (url_block net decode png_save inp (fst (upload_block inp (init_session s)), w))"
  using assms by (simp add: main_def split: prod.splits)

lemma main_ok:
  assumes "session_ok s"
  shows "session_ok (fst (main net decode png_save inp (s, w)))"
proof (cases "load_model inp")
  case (Inl e)
  then show ?thesis
    using assms by (simp add: main_aborted)
next
  case (Inr m)
  show ?thesis
    unfolding main_session [OF Inr]
    by (intro url_block_ok upload_block_ok init_session_ok assms)
qed

lemma reachable_ok:
  assumes "reachable net decode png_save sw"
  shows "session_ok (fst sw)"
  using assms
proof (induction rule: reachable.induct)
  case (start w)
  show ?case by (simp add: session_ok_def new_session_def)
next
  case (run s w inp s' w' out)
  from run.IH have "session_ok s" by simp
  then have "session_ok (fst (main net decode png_save inp (s, w)))"
    by (rule main_ok)
  with run.hyps(2) show ?case by simp
qed

text \<open>
  Claim C7. In every state that a session reaches, the two fields are both absent, or
  both \<^verbatim>\<open>None\<close>, or the bytes are set and the source is "file" or "URL". From such a
  state, the upload block and the URL block each leave both fields as they are or set
  both, to the new bytes and to their own source tag.
\<close>

theorem session_fields_together:
  assumes "reachable net decode png_save (s, w)"
  shows "session_ok s
       \<and> (\<forall>inp. fst (upload_block inp s) = s
              \<or> (\<exists>b. fst (upload_block inp s)
                    = \<lparr> img_bytes = Val b, img_source = Val ''file'' \<rparr>))
       \<and> (\<forall>inp. fst (url_block net decode png_save inp (s, w)) = s
              \<or> (\<exists>b. fst (url_block net decode png_save inp (s, w))
                    = \<lparr> img_bytes = Val b, img_source = Val ''URL'' \<rparr>))"
  using reachable_ok [OF assms] upload_block_cases url_block_cases
  by simp

lemma fetch_cat:
  "fetch_image_from_url stub_net stub_decode ''https://example.org/cat.png'' world0
     = (Inr \<lparr> width = 1, height = 1, pixels = [[(7, 7, 7)]], orientation = None \<rparr>,
        \<lparr> requests_sent = [''https://example.org/cat.png''],
          fetch_cache = [''https://example.org/cat.png'' \<mapsto>
            \<lparr> width = 1, height = 1, pixels = [[(7, 7, 7)]], orientation = None \<rparr>] \<rparr>)"
    by (simp add: fetch_image_from_url_def cache_data_def fetch_image_from_url_body_def
        requests_get_def world0_def stub_net_def raise_for_status_def exif_safe_open_def
        stub_decode_def exif_transpose_def Let_def)

lemma main_cat:
  "main stub_net stub_decode stub_png_save click_cat (new_session, world0)
     = (\<lparr> img_bytes = Val [7], img_source = Val ''URL'' \<rparr>,
        \<lparr> requests_sent = [''https://example.org/cat.png''],
          fetch_cache = [''https://example.org/cat.png'' \<mapsto>
            \<lparr> width = 1, height = 1, pixels = [[(7, 7, 7)]], orientation = None \<rparr>] \<rparr>,
        [StImage \<lparr> width = 1, height = 1, pixels = [[(7, 7, 7)]], orientation = None \<rparr>
           (Val ''URL''),
         StInfo ''Clicking Classify will be enabled in the next step.''])"
  by (simp add: main_def init_session_def new_session_def upload_block_def url_block_def
      click_cat_def fetch_cat stub_png_save_def render_block_def exif_safe_open_def
      stub_decode_def exif_transpose_def Let_def)

theorem session_fields_together_witness:
  "reachable stub_net stub_decode stub_png_save
     (\<lparr> img_bytes = Val [7], img_source = Val ''URL'' \<rparr>,
      \<lparr> requests_sent = [''https://example.org/cat.png''],
        fetch_cache = [''https://example.org/cat.png'' \<mapsto>
          \<lparr> width = 1, height = 1, pixels = [[(7, 7, 7)]], orientation = None \<rparr>] \<rparr>)
   \<and> session_ok \<lparr> img_bytes = Val [7], img_source = Val ''URL'' \<rparr>"
proof -
  have r: "reachable stub_net stub_decode stub_png_save
     (\<lparr> img_bytes = Val [7], img_source = Val ''URL'' \<rparr>,
      \<lparr> requests_sent = [''https://example.org/cat.png''],
        fetch_cache = [''https://example.org/cat.png'' \<mapsto>
          \<lparr> width = 1, height = 1, pixels = [[(7, 7, 7)]], orientation = None \<rparr>] \<rparr>)"
    by (rule reachable.run [OF reachable.start main_cat])
  from session_fields_together [OF r] have
    "session_ok \<lparr> img_bytes = Val [7], img_source = Val ''URL'' \<rparr>"
    by (rule conjunct1)
  with r show ?thesis
    by (rule conjI)
qed

section \<open>Failed loads\<close>

lemma fetch_body_exception:
  assumes "net u (length (requests_sent w)) = Inl e"
  shows "fst (fetch_image_from_url_body net decode u w) = Inl e"
  using assms by (simp add: fetch_image_from_url_body_def requests_get_def)

lemma fetch_miss:
  assumes "fetch_cache w u = None"
  shows "fst (fetch_image_from_url net decode u w) = fst (fetch_image_from_url_body net decode u w)"
  using assms
  by (cases "fetch_image_from_url_body net decode u w")
     (auto simp: fetch_image_from_url_def cache_data_def split: sum.splits)

text \<open>
  An uploaded file is stored as it is read, without being decoded. With an image from a
  URL in the session, the upload of a file that is not an image (here the empty file)
  replaces both fields; the run reports the decode error and shows no image.
\<close>

theorem failed_upload_counterexample:
  "exif_safe_open stub_decode [1]
     = Inr \<lparr> width = 1, height = 1, pixels = [[(1, 1, 1)]], orientation = None \<rparr>
   \<and> exif_safe_open stub_decode [] = Inl UnidentifiedImageError
   \<and> main stub_net stub_decode stub_png_save upload_empty
        (\<lparr> img_bytes = Val [1], img_source = Val ''URL'' \<rparr>, world0)
     = (\<lparr> img_bytes = Val [], img_source = Val ''file'' \<rparr>, world0,
        [StError ''Could not decode image from memory'' UnidentifiedImageError,
         StInfo no_image_info])"
  by (simp add: main_def init_session_def upload_block_def url_block_def upload_empty_def
      render_block_def exif_safe_open_def stub_decode_def exif_transpose_def Let_def)

text \<open>
  Claim C3, as the code has it. A load attempt that raises leaves both fields of the
  session state as they were: an upload whose \<^verbatim>\<open>read()\<close> raises, a URL load whose fetch
  raises (unreachable host, timeout, status 400 to 599, body that does not decode), and
  a URL load whose PNG encoding raises. A run with no readable upload and a failing URL
  load ends in the state it started from (with absent keys initialised), and so does a
  run that \<^verbatim>\<open>load_model()\<close> aborts. A file that can be read is stored as read, without
  being decoded: both fields are replaced, by its bytes and by the tag "file", whatever
  the bytes are; when the stored bytes do not decode, the display reports the decoder's
  exception and shows no image.
\<close>

theorem failed_load_keeps_session:
  "(uploaded_file inp = Some (Inl e) \<longrightarrow>
      upload_block inp s = (s, [StError ''Failed to read uploaded image'' e]))
   \<and> (load_btn inp \<and> url inp \<noteq> []
        \<and> fetch_image_from_url net decode (url inp) w = (Inl e, w') \<longrightarrow>
      url_block net decode png_save inp (s, w) = (s, w', [StError ''Failed to load from URL'' e]))
   \<and> (load_btn inp \<and> url inp \<noteq> []
        \<and> fetch_image_from_url net decode (url inp) w = (Inr img, w') \<and> png_save img = Inl e \<longrightarrow>
      url_block net decode png_save inp (s, w) = (s, w', [StError ''Failed to load from URL'' e]))
   \<and> (load_model inp = Inr m
        \<and> (uploaded_file inp = None \<or> (\<exists>e0. uploaded_file inp = Some (Inl e0)))
        \<and> load_btn inp \<and> url inp \<noteq> []
        \<and> fst (fetch_image_from_url net decode (url inp) w) = Inl e \<longrightarrow>
      fst (main net decode png_save inp (s, w)) = init_session s)
   \<and> (fetch_cache w (url inp) = None
        \<and> (net (url inp) (length (requests_sent w)) = Inl e
           \<or> (\<exists>r. net (url inp) (length (requests_sent w)) = Inr r
                 \<and> (400 \<le> status_code r \<and> status_code r < 600 \<and> e = HTTPError (status_code r)
                    \<or> \<not> (400 \<le> status_code r \<and> status_code r < 600)
                      \<and> decode (content r) = Inl e))) \<longrightarrow>
      fst (fetch_image_from_url net decode (url inp) w) = Inl e)
   \<and> (uploaded_file inp = Some (Inr b) \<longrightarrow>
      upload_block inp s = (\<lparr> img_bytes = Val b, img_source = Val ''file'' \<rparr>, []))
   \<and> (decode b = Inl e \<longrightarrow>
      render_block decode \<lparr> img_bytes = Val b, img_source = tag \<rparr>
        = [StError ''Could not decode image from memory'' e, StInfo no_image_info])
   \<and> (load_model inp = Inr m \<and> uploaded_file inp = Some (Inr b)
        \<and> \<not> (load_btn inp \<and> url inp \<noteq> []) \<and> decode b = Inl e \<longrightarrow>
      main net decode png_save inp (s, w)
        = (\<lparr> img_bytes = Val b, img_source = Val ''file'' \<rparr>, w,
           [StError ''Could not decode image from memory'' e, StInfo no_image_info]))
   \<and> (load_model inp = Inl e \<longrightarrow> main net decode png_save inp (s, w) = (s, w, [StException e]))"
proof (intro conjI impI)
  assume "uploaded_file inp = Some (Inl e)"
  then show "upload_block inp s = (s, [StError ''Failed to read uploaded image'' e])"
    by (simp add: upload_block_def)
next
  assume "load_btn inp \<and> url inp \<noteq> []
        \<and> fetch_image_from_url net decode (url inp) w = (Inl e, w')"
  then show "url_block net decode png_save inp (s, w)
               = (s, w', [StError ''Failed to load from URL'' e])"
    by (simp add: url_block_def)
next
  assume "load_btn inp \<and> url inp \<noteq> []
        \<and> fetch_image_from_url net decode (url inp) w = (Inr img, w') \<and> png_save img = Inl e"
  then show "url_block net decode png_save inp (s, w)
               = (s, w', [StError ''Failed to load from URL'' e])"
    by (simp add: url_block_def)
next
  assume a: "load_model inp = Inr m
        \<and> (uploaded_file inp = None \<or> (\<exists>e0. uploaded_file inp = Some (Inl e0)))
        \<and> load_btn inp \<and> url inp \<noteq> []
        \<and> fst (fetch_image_from_url net decode (url inp) w) = Inl e"
  then have up: "fst (upload_block inp (init_session s)) = init_session s"
    by (auto simp: upload_block_def)
  from a have "fst (url_block net decode png_save inp (init_session s, w)) = init_session s"
    by (cases "fetch_image_from_url net decode (url inp) w") (simp add: url_block_def)
  with up a show "fst (main net decode png_save inp (s, w)) = init_session s"
    by (simp add: main_session)
next
  assume a: "fetch_cache w (url inp) = None
        \<and> (net (url inp) (length (requests_sent w)) = Inl e
           \<or> (\<exists>r. net (url inp) (length (requests_sent w)) = Inr r
                 \<and> (400 \<le> status_code r \<and> status_code r < 600 \<and> e = HTTPError (status_code r)
                    \<or> \<not> (400 \<le> status_code r \<and> status_code r < 600)
                      \<and> decode (content r) = Inl e)))"
  then have miss: "fst (fetch_image_from_url net decode (url inp) w)
                     = fst (fetch_image_from_url_body net decode (url inp) w)"
    by (simp add: fetch_miss)
  from a consider
      (exn) "net (url inp) (length (requests_sent w)) = Inl e"
    | (status) r where "net (url inp) (length (requests_sent w)) = Inr r"
        and "400 \<le> status_code r \<and> status_code r < 600" and "e = HTTPError (status_code r)"
    | (body) r where "net (url inp) (length (requests_sent w)) = Inr r"
        and "\<not> (400 \<le> status_code r \<and> status_code r < 600)" and "decode (content r) = Inl e"
    by blast
  then have "fst (fetch_image_from_url_body net decode (url inp) w) = Inl e"
  proof cases
    case exn
    then show ?thesis by (rule fetch_body_exception)
  next
    case status
    with fetch_body_response [where net = net and decode = decode, OF status(1)]
    show ?thesis by (auto simp: raise_for_status_def)
  next
    case body
    with fetch_body_response [where net = net and decode = decode, OF body(1)]
    show ?thesis by (auto simp: raise_for_status_def exif_safe_open_def)
  qed
  with miss show "fst (fetch_image_from_url net decode (url inp) w) = Inl e"
    by simp
next
  assume "uploaded_file inp = Some (Inr b)"
  then show "upload_block inp s = (\<lparr> img_bytes = Val b, img_source = Val ''file'' \<rparr>, [])"
    by (cases s) (simp add: upload_block_def)
next
  assume "decode b = Inl e"
  then show "render_block decode \<lparr> img_bytes = Val b, img_source = tag \<rparr>
        = [StError ''Could not decode image from memory'' e, StInfo no_image_info]"
    by (simp add: render_block_def exif_safe_open_def)
next
  assume a: "load_model inp = Inr m \<and> uploaded_file inp = Some (Inr b)
        \<and> \<not> (load_btn inp \<and> url inp \<noteq> []) \<and> decode b = Inl e"
  then have up: "upload_block inp (init_session s)
                   = (\<lparr> img_bytes = Val b, img_source = Val ''file'' \<rparr>, [])"
    by (cases "init_session s") (simp add: upload_block_def)
  from a have ur: "url_block net decode png_save inp
                     (\<lparr> img_bytes = Val b, img_source = Val ''file'' \<rparr>, w)
                   = (\<lparr> img_bytes = Val b, img_source = Val ''file'' \<rparr>, w, [])"
    by (auto simp: url_block_def)
  from a have "render_block decode \<lparr> img_bytes = Val b, img_source = Val ''file'' \<rparr>
        = [StError ''Could not decode image from memory'' e, StInfo no_image_info]"
    by (simp add: render_block_def exif_safe_open_def)
  with a up ur show "main net decode png_save inp (s, w)
        = (\<lparr> img_bytes = Val b, img_source = Val ''file'' \<rparr>, w,
           [StError ''Could not decode image from memory'' e, StInfo no_image_info])"
    by (simp add: main_def)
next
  assume "load_model inp = Inl e"
  then show "main net decode png_save inp (s, w) = (s, w, [StException e])"
    by (rule main_aborted)
qed

lemma fetch_missing:
  "fetch_image_from_url stub_net stub_decode ''https://example.org/missing'' world0
     = (Inl (HTTPError 404),
        \<lparr> requests_sent = [''https://example.org/missing''], fetch_cache = Map.empty \<rparr>)"
    by (simp add: fetch_image_from_url_def cache_data_def fetch_image_from_url_body_def
        requests_get_def world0_def stub_net_def raise_for_status_def Let_def)

theorem failed_load_keeps_session_witness:
  "url_block stub_net stub_decode stub_png_save click_missing
     (\<lparr> img_bytes = Val [1], img_source = Val ''file'' \<rparr>, world0)
   = (\<lparr> img_bytes = Val [1], img_source = Val ''file'' \<rparr>,
      \<lparr> requests_sent = [''https://example.org/missing''], fetch_cache = Map.empty \<rparr>,
      [StError ''Failed to load from URL'' (HTTPError 404)])
   \<and> fst (main stub_net stub_decode stub_png_save click_missing
            (\<lparr> img_bytes = Val [1], img_source = Val ''file'' \<rparr>, world0))
     = \<lparr> img_bytes = Val [1], img_source = Val ''file'' \<rparr>
   \<and> upload_block (click_missing\<lparr> uploaded_file := Some (Inl OSError) \<rparr>)
        \<lparr> img_bytes = Val [1], img_source = Val ''file'' \<rparr>
     = (\<lparr> img_bytes = Val [1], img_source = Val ''file'' \<rparr>,
        [StError ''Failed to read uploaded image'' OSError])
   \<and> upload_block upload_empty \<lparr> img_bytes = Val [1], img_source = Val ''URL'' \<rparr>
     = (\<lparr> img_bytes = Val [], img_source = Val ''file'' \<rparr>, [])
   \<and> main stub_net stub_decode stub_png_save upload_empty
        (\<lparr> img_bytes = Val [1], img_source = Val ''URL'' \<rparr>, world0)
     = (\<lparr> img_bytes = Val [], img_source = Val ''file'' \<rparr>, world0,
        [StError ''Could not decode image from memory'' UnidentifiedImageError,
         StInfo no_image_info])"
proof -
  let ?s = "\<lparr> img_bytes = Val [1], img_source = Val ''file'' \<rparr>"
  let ?t = "\<lparr> img_bytes = Val [1], img_source = Val ''URL'' \<rparr>"
  have u: "uploaded_file (click_missing\<lparr> uploaded_file := Some (Inl OSError) \<rparr>)
             = Some (Inl OSError)"
    by simp
  from failed_load_keeps_session
         [where inp = "click_missing\<lparr> uploaded_file := Some (Inl OSError) \<rparr>"
            and e = OSError and s = ?s]
  have r: "upload_block (click_missing\<lparr> uploaded_file := Some (Inl OSError) \<rparr>) ?s
             = (?s, [StError ''Failed to read uploaded image'' OSError])"
    using u by blast
  have e: "load_model upload_empty = Inr ()" "uploaded_file upload_empty = Some (Inr [])"
    "\<not> (load_btn upload_empty \<and> url upload_empty \<noteq> [])"
    "stub_decode [] = Inl UnidentifiedImageError"
    by (simp_all add: upload_empty_def stub_decode_def)
  from failed_load_keeps_session
         [where inp = upload_empty and b = "[]" and s = ?t and m = "()"
            and decode = stub_decode and e = UnidentifiedImageError and net = stub_net
            and png_save = stub_png_save and w = world0]
  have st: "upload_block upload_empty ?t
              = (\<lparr> img_bytes = Val [], img_source = Val ''file'' \<rparr>, [])"
    and mn: "main stub_net stub_decode stub_png_save upload_empty (?t, world0)
     = (\<lparr> img_bytes = Val [], img_source = Val ''file'' \<rparr>, world0,
        [StError ''Could not decode image from memory'' UnidentifiedImageError,
         StInfo no_image_info])"
    using e by blast+
  have h: "load_btn click_missing" "url click_missing \<noteq> []"
    "url click_missing = ''https://example.org/missing''" "uploaded_file click_missing = None"
    "load_model click_missing = Inr ()"
    by (simp_all add: click_missing_def)
  have i: "init_session ?s = ?s"
    by (simp add: init_session_def)
  from failed_load_keeps_session
         [where inp = click_missing and net = stub_net and decode = stub_decode
            and png_save = stub_png_save and w = world0 and e = "HTTPError 404"
            and s = ?s and m = "()"
            and w' = "\<lparr> requests_sent = [''https://example.org/missing''],
                         fetch_cache = Map.empty \<rparr>"]
  have "url_block stub_net stub_decode stub_png_save click_missing (?s, world0)
   = (?s, \<lparr> requests_sent = [''https://example.org/missing''], fetch_cache = Map.empty \<rparr>,
      [StError ''Failed to load from URL'' (HTTPError 404)])
   \<and> fst (main stub_net stub_decode stub_png_save click_missing (?s, world0)) = ?s"
    using h i fetch_missing by simp
  with r st mn show ?thesis
    by (intro conjI) simp_all
qed

section \<open>The stored bytes of a URL load\<close>

lemma exif_transpose_upright: "upright (exif_transpose img)"
proof (cases "orientation img")
  case None
  then show ?thesis
    by (simp add: exif_transpose_def upright_def)
next
  case (Some k)
  have "k < 2 \<or> 8 < k" if "k \<noteq> 2" "k \<noteq> 3" "k \<noteq> 4" "k \<noteq> 5" "k \<noteq> 6" "k \<noteq> 7" "k \<noteq> 8"
    using that by linarith
  with Some show ?thesis
    by (auto simp: exif_transpose_def upright_def Let_def flip_left_right_def rotate_180_def
        flip_top_bottom_def transpose_diag_def rotate_270_def transverse_def rotate_90_def)
qed

lemma upright_noop:
  assumes "upright img"
  shows "exif_transpose img = img"
  using assms
  by (auto simp: exif_transpose_def upright_def Let_def split: option.splits)

lemma exif_safe_open_upright:
  assumes "exif_safe_open decode b = Inr img"
  shows "upright img"
  using assms exif_transpose_upright
  by (auto simp: exif_safe_open_def split: sum.splits)

lemma fetch_body_upright:
  assumes "fst (fetch_image_from_url_body net decode u w) = Inr img"
  shows "upright img"
  using assms exif_safe_open_upright [of decode _ img]
  by (auto simp: fetch_image_from_url_body_def requests_get_def Let_def
      split: sum.splits prod.splits)

lemma fetch_upright:
  assumes "cache_upright w"
    and "fetch_image_from_url net decode u w = (Inr img, w')"
  shows "upright img \<and> cache_upright w'"
proof (cases "fetch_cache w u")
  case (Some v)
  with assms(2) have "img = v" and "w' = w"
    by (simp_all add: fetch_hit)
  moreover from Some assms(1) have "upright v"
    by (auto simp: cache_upright_def ran_def)
  ultimately show ?thesis
    using assms(1) by simp
next
  case None
  obtain res w1 where b: "fetch_image_from_url_body net decode u w = (res, w1)"
    by (cases "fetch_image_from_url_body net decode u w")
  with None assms(2) have res: "res = Inr img"
    and w': "w' = w1\<lparr> fetch_cache := (fetch_cache w1)(u \<mapsto> img) \<rparr>"
    by (auto simp: fetch_image_from_url_def cache_data_def split: sum.splits)
  from b res have up: "upright img"
    using fetch_body_upright [of net decode u w img] by simp
  from b have "fetch_cache w1 = fetch_cache w"
    using fetch_body_world [of net decode u w] by simp
  with w' have "fetch_cache w' = (fetch_cache w)(u \<mapsto> img)"
    by simp
  with assms(1) up have "cache_upright w'"
    by (auto simp: cache_upright_def ran_def split: if_splits)
  with up show ?thesis by simp
qed

lemma fetch_miss_source:
  assumes "fetch_cache w u = None"
    and "fetch_image_from_url net decode u w = (Inr img, w')"
  shows "\<exists>r raw. net u (length (requests_sent w)) = Inr r
           \<and> decode (content r) = Inr raw \<and> img = exif_transpose raw"
proof -
  from assms have body: "fst (fetch_image_from_url_body net decode u w) = Inr img"
    using fetch_miss [OF assms(1), of net decode] by simp
  show ?thesis
  proof (cases "net u (length (requests_sent w))")
    case (Inl e)
    then have "fst (fetch_image_from_url_body net decode u w) = Inl e"
      by (rule fetch_body_exception)
    with body show ?thesis by simp
  next
    case (Inr r)
    from fetch_body_response [where net = net and decode = decode, OF Inr] body
    have "exif_safe_open decode (content r) = Inr img"
      by (simp split: sum.splits)
    then obtain raw where "decode (content r) = Inr raw" and "img = exif_transpose raw"
      by (auto simp: exif_safe_open_def split: sum.splits)
    with Inr show ?thesis by blast
  qed
qed

lemma url_block_loaded:
  assumes "load_btn inp" and "url inp \<noteq> []"
    and "url_block net decode png_save inp (s, w) = (s', w', [])"
  shows "\<exists>img b. fetch_image_from_url net decode (url inp) w = (Inr img, w')
           \<and> png_save img = Inr b
           \<and> s' = \<lparr> img_bytes = Val b, img_source = Val ''URL'' \<rparr>"
proof -
  obtain res w1 where f: "fetch_image_from_url net decode (url inp) w = (res, w1)"
    by (cases "fetch_image_from_url net decode (url inp) w")
  show ?thesis
  proof (cases res)
    case (Inl e)
    with f assms show ?thesis
      by (simp add: url_block_def)
  next
    case (Inr img)
    show ?thesis
    proof (cases "png_save img")
      case (Inl e)
      with f Inr assms show ?thesis
        by (simp add: url_block_def)
    next
      case b: (Inr b)
      with f Inr assms have "s' = \<lparr> img_bytes = Val b, img_source = Val ''URL'' \<rparr>" and "w' = w1"
        by (cases s; simp add: url_block_def)+
      with f Inr b show ?thesis by simp
    qed
  qed
qed

lemma redecode_upright:
  assumes "lossless_png png_save decode" and "png_save img = Inr b" and "upright img"
  shows "\<exists>shown. exif_safe_open decode b = Inr shown
           \<and> width shown = width img \<and> height shown = height img
           \<and> pixels shown = pixels img
           \<and> upright shown \<and> exif_transpose shown = shown"
proof -
  from assms(1,2) obtain tag where d: "decode b = Inr (img\<lparr> orientation := tag \<rparr>)"
    and tag: "tag = None \<or> tag = orientation img"
    unfolding lossless_png_def by blast
  from tag assms(3) have up: "upright (img\<lparr> orientation := tag \<rparr>)"
    by (auto simp: upright_def)
  then have noop: "exif_transpose (img\<lparr> orientation := tag \<rparr>) = img\<lparr> orientation := tag \<rparr>"
    by (rule upright_noop)
  with d have "exif_safe_open decode b = Inr (img\<lparr> orientation := tag \<rparr>)"
    by (simp add: exif_safe_open_def)
  with up noop show ?thesis
    by (intro exI [of _ "img\<lparr> orientation := tag \<rparr>"]) simp
qed

text \<open>
  Claim C10. Take a URL load that succeeds (the button is clicked, the URL is not
  empty and the block reports no error), with every image in the cache upright and a
  lossless PNG codec. Then the fetch returned an image, the session holds its PNG
  encoding and the source "URL"; when the URL was not in the cache the image is the
  decoded body of the response with its EXIF orientation applied; the image is
  upright, and so is every image in the cache afterwards. Decoding the stored bytes
  for display succeeds and gives an image with the width, the height and the pixels of
  the fetched one; it is upright, so the second EXIF transposition changes nothing,
  whether the PNG carries no orientation tag or the one of the image; and that image
  is what the display shows.
\<close>

theorem url_load_redecodes:
  assumes "lossless_png png_save decode" and "cache_upright w"
    and "load_btn inp" and "url inp \<noteq> []"
    and "url_block net decode png_save inp (s, w) = (s', w', [])"
  shows "\<exists>img b shown.
           fetch_image_from_url net decode (url inp) w = (Inr img, w')
         \<and> png_save img = Inr b
         \<and> s' = \<lparr> img_bytes = Val b, img_source = Val ''URL'' \<rparr>
         \<and> (fetch_cache w (url inp) = None \<longrightarrow>
              (\<exists>r raw. net (url inp) (length (requests_sent w)) = Inr r
                 \<and> decode (content r) = Inr raw \<and> img = exif_transpose raw))
         \<and> upright img \<and> cache_upright w'
         \<and> exif_safe_open decode b = Inr shown
         \<and> width shown = width img \<and> height shown = height img
         \<and> pixels shown = pixels img
         \<and> upright shown \<and> exif_transpose shown = shown
         \<and> render_block decode s'
             = [StImage shown (Val ''URL''),
                StInfo ''Clicking Classify will be enabled in the next step.'']"
proof -
  from url_block_loaded [OF assms(3,4,5)] obtain img b where
    f: "fetch_image_from_url net decode (url inp) w = (Inr img, w')"
    and p: "png_save img = Inr b"
    and s': "s' = \<lparr> img_bytes = Val b, img_source = Val ''URL'' \<rparr>"
    by blast
  from fetch_upright [OF assms(2) f] have up: "upright img" and cu: "cache_upright w'"
    by simp_all
  from redecode_upright [OF assms(1) p up] obtain shown where
    sh: "exif_safe_open decode b = Inr shown"
    and same: "width shown = width img" "height shown = height img" "pixels shown = pixels img"
    and ups: "upright shown" "exif_transpose shown = shown"
    by blast
  have src: "fetch_cache w (url inp) = None \<longrightarrow>
              (\<exists>r raw. net (url inp) (length (requests_sent w)) = Inr r
                 \<and> decode (content r) = Inr raw \<and> img = exif_transpose raw)"
    using fetch_miss_source [OF _ f] by blast
  from sh s' have rb: "render_block decode s'
             = [StImage shown (Val ''URL''),
                StInfo ''Clicking Classify will be enabled in the next step.'']"
    by (simp add: render_block_def)
  from f p s' src up cu sh same ups rb show ?thesis
    by (intro exI conjI)
qed

text \<open>
  The stand-in codec is lossless on every image it encodes. The example is a
  photograph stored with the orientation tag 6: it is turned once when fetched and not
  again when the stored bytes are decoded.
\<close>

lemma parse_pixels:
  "parse_rows (enc_pixels ps @ rest) cur acc = parse_rows rest (rev ps @ cur) acc"
  by (induction ps arbitrary: cur) (auto simp: enc_pixels_def)

lemma parse_enc_rows:
  "parse_rows (enc_rows rs @ [2]) [] acc = Some (rev acc @ rs)"
proof (induction rs arbitrary: acc)
  case Nil
  show ?case by (simp add: enc_rows_def)
next
  case (Cons r rs)
  have "enc_rows (r # rs) @ [2] = enc_pixels r @ (0 # enc_rows rs @ [2])"
    by (simp add: enc_rows_def)
  then have "parse_rows (enc_rows (r # rs) @ [2]) [] acc
               = parse_rows (0 # enc_rows rs @ [2]) (rev r) acc"
    by (simp add: parse_pixels)
  also have "\<dots> = parse_rows (enc_rows rs @ [2]) [] (r # acc)"
    by simp
  also have "\<dots> = Some (rev (r # acc) @ rs)"
    by (rule Cons.IH)
  finally show ?case by simp
qed

lemma demo_codec_lossless: "lossless_png demo_png_save demo_decode"
  unfolding lossless_png_def
proof (intro allI impI)
  fix img b
  assume "demo_png_save img = Inr b"
  then have wf: "wf_image img" and pos: "0 < width img" "0 < height img"
    and b: "b = 0 # enc_rows (pixels img) @ [2]"
    by (auto simp: demo_png_save_def split: if_splits)
  from wf pos have ne: "pixels img \<noteq> []" and len: "length (pixels img) = height img"
    and all: "list_all (\<lambda>r. length r = width img) (pixels img)"
    by (auto simp: wf_image_def)
  from ne all have hd: "length (hd (pixels img)) = width img"
    by (cases "pixels img") simp_all
  with pos have hne: "hd (pixels img) \<noteq> []"
    by auto
  have "parse_rows (enc_rows (pixels img) @ [2]) [] [] = Some (pixels img)"
    using parse_enc_rows [of "pixels img" "[]"] by simp
  with b ne hne hd all len have "demo_decode b = Inr (img\<lparr> orientation := None \<rparr>)"
    by (cases img) (simp add: demo_decode_def)
  then show "\<exists>tag. demo_decode b = Inr (img\<lparr> orientation := tag \<rparr>)
               \<and> (tag = None \<or> tag = orientation img)"
    by blast
qed

lemma photo_decoded: "demo_decode photo_file
       = Inr \<lparr> width = 2, height = 1, pixels = [[(1, 2, 3), (4, 5, 6)]],
               orientation = Some 6 \<rparr>"
  by (simp add: demo_decode_def photo_file_def)
lemma photo_turned: "exif_transpose \<lparr> width = 2, height = 1, pixels = [[(1, 2, 3), (4, 5, 6)]],
               orientation = Some 6 \<rparr> = photo_upright"
  by (simp add: exif_transpose_def rotate_270_def columns_def photo_upright_def numeral_2_eq_2)
lemma photo_opened: "exif_safe_open demo_decode photo_file = Inr photo_upright"
  by (simp only: exif_safe_open_def photo_decoded photo_turned sum.case)
lemma fetch_photo:
  "fetch_image_from_url photo_net demo_decode ''https://example.org/photo.jpg'' world0
     = (Inr photo_upright,
        \<lparr> requests_sent = [''https://example.org/photo.jpg''],
          fetch_cache = [''https://example.org/photo.jpg'' \<mapsto> photo_upright] \<rparr>)"
  by (simp add: fetch_image_from_url_def cache_data_def fetch_image_from_url_body_def
      requests_get_def world0_def photo_net_def raise_for_status_def photo_opened Let_def)

theorem url_load_redecodes_witness:
  "lossless_png demo_png_save demo_decode \<and> cache_upright world0
   \<and> demo_decode photo_file
       = Inr \<lparr> width = 2, height = 1, pixels = [[(1, 2, 3), (4, 5, 6)]],
               orientation = Some 6 \<rparr>
   \<and> url_block photo_net demo_decode demo_png_save click_photo (new_session, world0)
       = (\<lparr> img_bytes = Val photo_png, img_source = Val ''URL'' \<rparr>,
          \<lparr> requests_sent = [''https://example.org/photo.jpg''],
            fetch_cache = [''https://example.org/photo.jpg'' \<mapsto> photo_upright] \<rparr>, [])
   \<and> (\<exists>shown. exif_safe_open demo_decode photo_png = Inr shown
         \<and> width shown = 1 \<and> height shown = 2
         \<and> pixels shown = [[(1, 2, 3)], [(4, 5, 6)]]
         \<and> exif_transpose shown = shown)"
proof -
  let ?w' = "\<lparr> requests_sent = [''https://example.org/photo.jpg''],
              fetch_cache = [''https://example.org/photo.jpg'' \<mapsto> photo_upright] \<rparr>"
  have cu: "cache_upright world0"
    by (simp add: cache_upright_def world0_def)
  note raw = photo_decoded
  have h: "load_btn click_photo" "url click_photo \<noteq> []"
    "url click_photo = ''https://example.org/photo.jpg''"
    by (simp_all add: click_photo_def)
  have sv: "demo_png_save photo_upright = Inr photo_png"
    by (simp add: demo_png_save_def photo_upright_def photo_png_def wf_image_def
        enc_rows_def enc_pixels_def)
  have blk: "url_block photo_net demo_decode demo_png_save click_photo (new_session, world0)
       = (\<lparr> img_bytes = Val photo_png, img_source = Val ''URL'' \<rparr>, ?w', [])"
    using h fetch_photo sv by (simp add: url_block_def new_session_def)
  from url_load_redecodes [OF demo_codec_lossless cu h(1,2) blk] obtain img b shown where
    f: "fetch_image_from_url photo_net demo_decode (url click_photo) world0 = (Inr img, ?w')"
    and s: "\<lparr> img_bytes = Val photo_png, img_source = Val ''URL'' \<rparr>
              = \<lparr> img_bytes = Val b, img_source = Val ''URL'' \<rparr>"
    and sh: "exif_safe_open demo_decode b = Inr shown"
    and same: "width shown = width img" "height shown = height img" "pixels shown = pixels img"
    and noop: "exif_transpose shown = shown"
    by blast
  from f h(3) fetch_photo have "img = photo_upright"
    by simp
  with same have "width shown = 1" "height shown = 2" "pixels shown = [[(1, 2, 3)], [(4, 5, 6)]]"
    by (simp_all add: photo_upright_def)
  moreover from s have "b = photo_png"
    by simp
  ultimately have "\<exists>shown. exif_safe_open demo_decode photo_png = Inr shown
         \<and> width shown = 1 \<and> height shown = 2
         \<and> pixels shown = [[(1, 2, 3)], [(4, 5, 6)]]
         \<and> exif_transpose shown = shown"
    using sh noop by blast
  with demo_codec_lossless cu raw blk show ?thesis
    by (intro conjI)
qed

section \<open>The filtered predictions\<close>

lemma kept_snd: "(\<lambda>(label, p). T \<le> p) = (\<lambda>x. T \<le> snd x)"
  by (simp add: fun_eq_iff split_beta)

lemma ranked_filter_prefix:
  fixes xs :: "(string \<times> 'p::linorder) list"
  assumes "ranked xs"
  shows "filter (\<lambda>x. T \<le> snd x) xs = take (length (filter (\<lambda>x. T \<le> snd x) xs)) xs"
  using assms
proof (induction xs)
  case Nil
  then show ?case by simp
next
  case (Cons x xs)
  then have tl: "ranked xs" and le: "\<forall>y \<in> set xs. snd y \<le> snd x"
    by (simp_all add: ranked_def)
  show ?case
  proof (cases "T \<le> snd x")
    case True
    with Cons.IH [OF tl] show ?thesis
      by simp
  next
    case False
    with le have "\<forall>y \<in> set xs. \<not> T \<le> snd y"
      by auto
    then have "filter (\<lambda>x. T \<le> snd x) xs = []"
      by (simp add: filter_empty_conv)
    with False show ?thesis
      by simp
  qed
qed

lemma ranked_take:
  assumes "ranked xs"
  shows "ranked (take n xs)"
  using assms unfolding ranked_def by (rule sorted_wrt_take)

text \<open>
  Claim C2. For a ranked list, a threshold \<open>T\<close> and a Top-K \<open>K\<close>, the list obtained by
  dropping the entries below \<open>T\<close> and taking the first \<open>K\<close> of the rest has length
  \<open>min K (count (p \<ge> T))\<close>, at most \<open>K\<close>; it is sorted by confidence, highest first;
  it has no entry below \<open>T\<close>; it is the prefix of that length of the ranked list; and
  it is empty when every confidence is below \<open>T\<close>.
\<close>

theorem filter_predictions_ranked:
  fixes xs :: "(string \<times> 'p::linorder) list"
  assumes "ranked xs"
  shows "length (filter_predictions T K xs)
           = min K (length (filter (\<lambda>(label, p). T \<le> p) xs))
       \<and> length (filter_predictions T K xs) \<le> K
       \<and> ranked (filter_predictions T K xs)
       \<and> (\<forall>(label, p) \<in> set (filter_predictions T K xs). T \<le> p)
       \<and> filter_predictions T K xs
           = take (min K (length (filter (\<lambda>(label, p). T \<le> p) xs))) xs
       \<and> ((\<forall>(label, p) \<in> set xs. p < T) \<longrightarrow> filter_predictions T K xs = [])"
proof -
  define kept where "kept = filter (\<lambda>x. T \<le> snd x) xs"
  have fp: "filter_predictions T K xs = take K kept"
    by (simp add: filter_predictions_def kept_def kept_snd)
  have len: "length (filter_predictions T K xs) = min K (length kept)"
    unfolding fp by (simp add: min.commute)
  then have le: "length (filter_predictions T K xs) \<le> K"
    by simp
  have "kept = take (length kept) xs"
    unfolding kept_def using assms by (rule ranked_filter_prefix)
  then have "take K kept = take K (take (length kept) xs)"
    by simp
  then have eq: "filter_predictions T K xs = take (min K (length kept)) xs"
    unfolding fp by simp
  have rk: "ranked (filter_predictions T K xs)"
    unfolding eq using assms by (rule ranked_take)
  have "set (take K kept) \<subseteq> set kept"
    by (rule set_take_subset)
  then have "\<forall>x \<in> set (filter_predictions T K xs). T \<le> snd x"
    unfolding fp by (auto simp: kept_def)
  then have ge: "\<forall>(label, p) \<in> set (filter_predictions T K xs). T \<le> p"
    by (simp add: split_beta)
  have none: "(\<forall>(label, p) \<in> set xs. p < T) \<longrightarrow> filter_predictions T K xs = []"
  proof
    assume "\<forall>(label, p) \<in> set xs. p < T"
    then have "\<forall>x \<in> set xs. \<not> T \<le> snd x"
      by (auto simp: split_beta)
    then have "kept = []"
      by (simp add: kept_def filter_empty_conv)
    then show "filter_predictions T K xs = []"
      unfolding fp by simp
  qed
  from len le rk ge eq none show ?thesis
    unfolding kept_def kept_snd by (intro conjI)
qed

text \<open>The scenarios 4 and 5 of the specification, and a threshold above every confidence.\<close>

theorem filter_predictions_ranked_witness:
  "ranked scenario_probabilities
   \<and> filter_predictions 0.05 3 scenario_probabilities = [(''a'', 0.6), (''b'', 0.3), (''c'', 0.08)]
   \<and> filter_predictions 0.5 3 scenario_probabilities = [(''a'', 0.6)]
   \<and> filter_predictions 0.7 3 scenario_probabilities = []
   \<and> length (filter_predictions 0.5 3 scenario_probabilities)
       = min 3 (length (filter (\<lambda>(label, p). 0.5 \<le> p) scenario_probabilities))"
proof -
  have r: "ranked scenario_probabilities"
    by (simp add: ranked_def scenario_probabilities_def)
  have a: "filter_predictions 0.05 3 scenario_probabilities = [(''a'', 0.6), (''b'', 0.3), (''c'', 0.08)]"
    and b: "filter_predictions 0.5 3 scenario_probabilities = [(''a'', 0.6)]"
    and c: "filter_predictions 0.7 3 scenario_probabilities = []"
    by (simp_all add: filter_predictions_def scenario_probabilities_def)
  from filter_predictions_ranked [where T = "0.5" and K = 3, OF r]
  have d: "length (filter_predictions 0.5 3 scenario_probabilities)
       = min 3 (length (filter (\<lambda>(label, p). 0.5 \<le> p) scenario_probabilities))"
    by (rule conjunct1)
  from r a b c d show ?thesis
    by (intro conjI)
qed

end
